theory Spec2Isabelle
  imports Main "HOL-Library.Word"
begin

unbundle bit_operations_syntax

section \<open>Data model of the TCP server core\<close>

text \<open>
  The model follows \<^verbatim>\<open>src/core/linux/tcp_server.cc\<close> and
  \<^verbatim>\<open>src/core/windows/tcp_server.cc\<close>. Where the two platforms differ, the
  function is given twice, with the suffix \<open>_linux\<close> or \<open>_win\<close>.

  Undefined behaviour of the C++ (a null pointer dereferenced, a vector indexed out of
  range, an iterator erased that is not dereferenceable, \<open>front()\<close> of an empty list, a
  signed overflow) is a value of type \<open>fault\<close>: a function that can reach it returns
  \<open>fault + 'a\<close>.
\<close>

type_synonym ConnectionId = "64 word"
type_synonym time_t = int

datatype fault = Null_deref | Out_of_bounds | Invalid_iterator | Empty_front | Signed_overflow

text \<open>
  \<^verbatim>\<open>time_t\<close> is a signed 64-bit integer on both platforms. Times are integers here, and
  \<open>in_time_t\<close> is the range of the type: where the code adds or subtracts two times, a
  result outside the range is a signed overflow.
\<close>

definition in_time_t :: "int \<Rightarrow> bool" where
  "in_time_t x \<longleftrightarrow> - (2 ^ 63) \<le> x \<and> x < 2 ^ 63"

datatype raptor_error = RAPTOR_ERROR_NONE | RAPTOR_ERROR string

text \<open>
  Modelled from the spec: the declaration of \<^verbatim>\<open>RaptorOptions\<close> is not among the source
  files. The spec gives \<open>{ max_connections: u32, connection_timeout: seconds }\<close>.
\<close>

record RaptorOptions =
  max_connections :: "32 word"
  connection_timeout :: int

subsection \<open>Connection identifier codec\<close>

text \<open>
  Modelled from the spec: \<^verbatim>\<open>core::BuildConnectionId\<close>, \<^verbatim>\<open>core::GetMagicNumber\<close>,
  \<^verbatim>\<open>core::GetUserId\<close> and \<^verbatim>\<open>core::InvalidConnectionId\<close> are used by the server but
  their file is not among the sources. The spec fixes the layout
  \<open>[magic:16 | listen_port:16 | slot_index:32]\<close> and a sentinel that is all-ones or zero;
  all-ones is taken here, like \<^verbatim>\<open>InvalidIndex\<close> of the source.
\<close>

definition BuildConnectionId :: "16 word \<Rightarrow> 16 word \<Rightarrow> 32 word \<Rightarrow> ConnectionId" where
  "BuildConnectionId magic port uid =
     push_bit 48 (ucast magic) OR push_bit 32 (ucast port) OR ucast uid"

definition GetMagicNumber :: "ConnectionId \<Rightarrow> 16 word" where
  "GetMagicNumber cid = ucast (drop_bit 48 cid)"

definition GetListenPort :: "ConnectionId \<Rightarrow> 16 word" where
  "GetListenPort cid = ucast (drop_bit 32 cid)"

definition GetUserId :: "ConnectionId \<Rightarrow> 32 word" where
  "GetUserId cid = ucast cid"

definition InvalidConnectionId :: ConnectionId where
  "InvalidConnectionId = - 1"

text \<open>\<^verbatim>\<open>constexpr uint32_t InvalidIndex = static_cast<uint32_t>(-1);\<close>\<close>

definition InvalidIndex :: "32 word" where
  "InvalidIndex = - 1"

definition RESERVED_CONNECTION_COUNT :: nat where
  "RESERVED_CONNECTION_COUNT = 100"

subsection \<open>Server state\<close>

text \<open>
  A \<^verbatim>\<open>Connection\<close> object is external; the server only creates it, calls it and
  destroys it. The model keeps the identifier and the socket it was initialised with.
\<close>

datatype Connection = Connection (conn_cid: ConnectionId) (conn_sock: int)

text \<open>
  An iterator into \<^verbatim>\<open>std::multimap<time_t, uint32_t>\<close>. Every inserted node gets a
  fresh number; \<open>At n\<close> points to node \<open>n\<close>, \<open>End\<close> is \<^verbatim>\<open>end()\<close>, and \<open>Singular\<close> is the
  value-initialised iterator that \<^verbatim>\<open>_mgr.resize\<close> leaves in a new slot.
\<close>

datatype tm_iter = Singular | End | At nat

datatype TimeoutEntry = TimeoutEntry (e_key: time_t) (e_val: "32 word") (e_node: nat)

datatype MessageType = kNewConnection | kRecvAMessage | kCloseClient

datatype TcpMessageNode = TcpMessageNode (msg_type: MessageType) (msg_cid: ConnectionId)

datatype component = Listener | Recv_thread | Send_thread | Rs_thread | Mq_thd

text \<open>Calls that leave the server: they are recorded, in order, in the field \<open>trace\<close>.\<close>

datatype event =
    Log_error string
  | Socket_shutdown int
  | Comp_Init component
  | Comp_Start component
  | Comp_Shutdown component
  | Cv_Signal
  | Mq_Join
  | Conn_SetProtocol ConnectionId
  | Conn_Init ConnectionId int
  | Conn_Shutdown ConnectionId bool
  | Conn_Send ConnectionId
  | Conn_DoRecvEvent ConnectionId
  | Conn_DoSendEvent ConnectionId
  | Conn_AsyncRecv ConnectionId
  | Iocp_Add int ConnectionId
  | Service_OnConnected ConnectionId
  | Service_OnMessageReceived ConnectionId
  | Service_OnClosed ConnectionId

record TcpServer =
  shutdown :: bool
  options :: RaptorOptions
  listener :: bool
  recv_thread :: bool
  send_thread :: bool
  rs_thread :: bool
  mpscq :: "TcpMessageNode list"
  count :: "32 word"
  mgr :: "(Connection option \<times> tm_iter) list"
  timeout_record_list :: "TimeoutEntry list"
  free_index_list :: "32 word list"
  magic_number :: "16 word"
  last_timeout_time :: time_t
  next_node :: nat
  trace :: "event list"

text \<open>
  The fields \<open>listener\<close>, \<open>recv_thread\<close>, \<open>send_thread\<close> (Linux) and \<open>rs_thread\<close>
  (Windows) say whether the \<^verbatim>\<open>shared_ptr\<close> of that name is set. \<open>next_node\<close> is the
  number the next node of the timeout index gets.
\<close>

definition emit :: "event \<Rightarrow> TcpServer \<Rightarrow> TcpServer" where
  "emit e s = s\<lparr>trace := trace s @ [e]\<rparr>"

text \<open>
  The constructor: \<^verbatim>\<open>_shutdown(true)\<close>, empty containers, null pointers. The members the
  constructor leaves uninitialised (\<^verbatim>\<open>_options\<close>, \<^verbatim>\<open>_magic_number\<close>) are parameters.
\<close>

definition TcpServer_ctor :: "RaptorOptions \<Rightarrow> 16 word \<Rightarrow> TcpServer" where
  "TcpServer_ctor o0 m0 =
     \<lparr>shutdown = True, options = o0, listener = False, recv_thread = False,
      send_thread = False, rs_thread = False, mpscq = [], count = 0, mgr = [],
      timeout_record_list = [], free_index_list = [], magic_number = m0,
      last_timeout_time = 0, next_node = 0, trace = []\<rparr>"

section \<open>Validation of a connection identifier\<close>

text \<open>\<^verbatim>\<open>TcpServer::CheckConnectionId\<close>, the same on both platforms.\<close>

definition CheckConnectionId :: "TcpServer \<Rightarrow> ConnectionId \<Rightarrow> 32 word" where
  "CheckConnectionId s cid =
     (let failure = InvalidIndex in
      if cid = InvalidConnectionId then failure
      else let magic = GetMagicNumber cid in
        if magic \<noteq> magic_number s then failure
        else let uid = GetUserId cid in
          if max_connections (options s) \<le> uid then failure
          else uid)"

section \<open>The timeout index\<close>

text \<open>
  \<^verbatim>\<open>std::multimap<time_t, uint32_t>\<close> as the list of its nodes in iteration order.
  \<^verbatim>\<open>insert\<close> puts a node after the nodes with an equal key. \<^verbatim>\<open>erase(it)\<close> is
  undefined unless \<open>it\<close> points to a node of the container.
\<close>

fun mm_insert :: "TimeoutEntry \<Rightarrow> TimeoutEntry list \<Rightarrow> TimeoutEntry list" where
  "mm_insert e [] = [e]"
| "mm_insert e (x # xs) = (if e_key e < e_key x then e # x # xs else x # mm_insert e xs)"

definition mm_begin :: "TimeoutEntry list \<Rightarrow> tm_iter" where
  "mm_begin xs = (case xs of [] \<Rightarrow> End | x # _ \<Rightarrow> At (e_node x))"

fun mm_next :: "nat \<Rightarrow> TimeoutEntry list \<Rightarrow> tm_iter" where
  "mm_next n [] = End"
| "mm_next n (x # xs) = (if e_node x = n then mm_begin xs else mm_next n xs)"

definition mm_deref :: "tm_iter \<Rightarrow> TimeoutEntry list \<Rightarrow> TimeoutEntry option" where
  "mm_deref it xs = (case it of At n \<Rightarrow> find (\<lambda>x. e_node x = n) xs | _ \<Rightarrow> None)"

definition mm_erase :: "tm_iter \<Rightarrow> TimeoutEntry list \<Rightarrow> fault + TimeoutEntry list" where
  "mm_erase it xs =
     (case mm_deref it xs of
        None \<Rightarrow> Inl Invalid_iterator
      | Some x \<Rightarrow> Inr (filter (\<lambda>y. e_node y \<noteq> e_node x) xs))"

text \<open>\<^verbatim>\<open>_timeout_record_list.insert({deadline, index})\<close>, which returns the new iterator.\<close>

definition timeout_insert :: "time_t \<Rightarrow> 32 word \<Rightarrow> TcpServer \<Rightarrow> tm_iter \<times> TcpServer" where
  "timeout_insert deadline index s =
     (At (next_node s),
      s\<lparr>timeout_record_list :=
           mm_insert (TimeoutEntry deadline index (next_node s)) (timeout_record_list s),
        next_node := Suc (next_node s)\<rparr>)"

section \<open>Lifecycle: Init, Start, Shutdown\<close>

text \<open>\<^verbatim>\<open>std::vector::resize\<close>: new elements are value-initialised.\<close>

definition resize :: "nat \<Rightarrow> (Connection option \<times> tm_iter) list
    \<Rightarrow> (Connection option \<times> tm_iter) list" where
  "resize n xs = take n xs @ replicate (n - length xs) (None, Singular)"

text \<open>
  \<^verbatim>\<open>TcpServer::Init\<close>. The results of \<^verbatim>\<open>_listener->Init()\<close>, \<^verbatim>\<open>_recv_thread->Init()\<close>,
  \<^verbatim>\<open>_send_thread->Init()\<close> and of \<^verbatim>\<open>Now()\<close> are parameters.
\<close>

definition Init_linux :: "TcpServer \<Rightarrow> RaptorOptions \<Rightarrow> raptor_error \<Rightarrow> raptor_error
    \<Rightarrow> raptor_error \<Rightarrow> time_t \<Rightarrow> raptor_error \<times> TcpServer" where
  "Init_linux s opts listener_Init recv_Init send_Init n =
     (if \<not> shutdown s then (RAPTOR_ERROR ''tcp server already running'', s)
      else
        let s = s\<lparr>listener := True, recv_thread := True, send_thread := True\<rparr>;
            s = emit (Comp_Init Listener) s
        in if listener_Init \<noteq> RAPTOR_ERROR_NONE then (listener_Init, s)
        else let s = emit (Comp_Init Recv_thread) s
        in if recv_Init \<noteq> RAPTOR_ERROR_NONE then (recv_Init, s)
        else let s = emit (Comp_Init Send_thread) s
        in if send_Init \<noteq> RAPTOR_ERROR_NONE then (send_Init, s)
        else
          let s = s\<lparr>shutdown := False, options := opts, count := 0\<rparr>;
              s = emit (Comp_Init Mq_thd) s;
              s = s\<lparr>mgr := resize RESERVED_CONNECTION_COUNT (mgr s),
                    free_index_list :=
                      free_index_list s @ map of_nat [0..<RESERVED_CONNECTION_COUNT]\<rparr>;
              s = s\<lparr>magic_number := word_of_int (drop_bit 16 n AND 0xffff),
                    last_timeout_time := n\<rparr>
          in (RAPTOR_ERROR_NONE, s))"

definition Init_win :: "TcpServer \<Rightarrow> RaptorOptions \<Rightarrow> raptor_error \<Rightarrow> raptor_error
    \<Rightarrow> time_t \<Rightarrow> raptor_error \<times> TcpServer" where
  "Init_win s opts listener_Init rs_Init n =
     (if \<not> shutdown s then (RAPTOR_ERROR ''tcp server already running'', s)
      else
        let s = s\<lparr>listener := True, rs_thread := True\<rparr>;
            s = emit (Comp_Init Listener) s
        in if listener_Init \<noteq> RAPTOR_ERROR_NONE then (listener_Init, s)
        else let s = emit (Comp_Init Rs_thread) s
        in if rs_Init \<noteq> RAPTOR_ERROR_NONE then (rs_Init, s)
        else
          let s = s\<lparr>shutdown := False, options := opts, count := 0\<rparr>;
              s = emit (Comp_Init Mq_thd) s;
              s = s\<lparr>mgr := resize RESERVED_CONNECTION_COUNT (mgr s),
                    free_index_list :=
                      free_index_list s @ map of_nat [0..<RESERVED_CONNECTION_COUNT]\<rparr>;
              s = s\<lparr>magic_number := word_of_int (drop_bit 16 n AND 0xffff),
                    last_timeout_time := n\<rparr>
          in (RAPTOR_ERROR_NONE, s))"

text \<open>
  \<^verbatim>\<open>TcpServer::Start\<close>. The results of \<^verbatim>\<open>StartListening()\<close> and of the threads'
  \<^verbatim>\<open>Start()\<close> are parameters. A call through a null \<^verbatim>\<open>shared_ptr\<close> is a fault.
\<close>

definition Start_linux :: "TcpServer \<Rightarrow> bool \<Rightarrow> bool \<Rightarrow> bool
    \<Rightarrow> fault + raptor_error \<times> TcpServer" where
  "Start_linux s listener_Start recv_Start send_Start =
     (if \<not> listener s then Inl Null_deref
      else let s = emit (Comp_Start Listener) s
      in if \<not> listener_Start then Inr (RAPTOR_ERROR ''failed to start listener'', s)
      else if \<not> recv_thread s then Inl Null_deref
      else let s = emit (Comp_Start Recv_thread) s
      in if \<not> recv_Start then Inr (RAPTOR_ERROR ''failed to start recv thread'', s)
      else if \<not> send_thread s then Inl Null_deref
      else let s = emit (Comp_Start Send_thread) s
      in if \<not> send_Start then Inr (RAPTOR_ERROR ''failed to start send thread'', s)
      else Inr (RAPTOR_ERROR_NONE, emit (Comp_Start Mq_thd) s))"

definition Start_win :: "TcpServer \<Rightarrow> bool \<Rightarrow> bool \<Rightarrow> fault + raptor_error \<times> TcpServer" where
  "Start_win s listener_Start rs_Start =
     (if \<not> listener s then Inl Null_deref
      else let s = emit (Comp_Start Listener) s
      in if \<not> listener_Start then Inr (RAPTOR_ERROR ''failed to start listener'', s)
      else if \<not> rs_thread s then Inl Null_deref
      else let s = emit (Comp_Start Rs_thread) s
      in if \<not> rs_Start then Inr (RAPTOR_ERROR ''failed to start rs_thread'', s)
      else Inr (RAPTOR_ERROR_NONE, emit (Comp_Start Mq_thd) s))"

text \<open>The loop of \<^verbatim>\<open>Shutdown\<close> over \<^verbatim>\<open>_mgr\<close>: every live connection is shut down.\<close>

primrec shutdown_conns :: "(Connection option \<times> tm_iter) list \<Rightarrow> TcpServer \<Rightarrow> TcpServer" where
  "shutdown_conns [] s = s"
| "shutdown_conns (obj # objs) s =
     shutdown_conns objs
       (case fst obj of
          Some c \<Rightarrow> emit (Conn_Shutdown (conn_cid c) False) s
        | None \<Rightarrow> s)"

text \<open>
  Modelled from the spec: \<^verbatim>\<open>MultiProducerSingleConsumerQueue\<close> is not among the sources.
  The queue is the list of its nodes, oldest first; \<open>pop_and_check_end\<close> gives the first
  node, if any, and whether the queue is empty after it. The function below is the
  \<^verbatim>\<open>do ... while (!empty)\<close> loop of \<^verbatim>\<open>Shutdown\<close> that clears the queue: each node popped
  decrements \<^verbatim>\<open>_count\<close>.
\<close>

fun clear_queue :: "TcpMessageNode list \<Rightarrow> 32 word \<Rightarrow> TcpMessageNode list \<times> 32 word" where
  "clear_queue [] c = ([], c)"
| "clear_queue (m # ms) c = (if ms = [] then (ms, c - 1) else clear_queue ms (c - 1))"

definition Shutdown_linux :: "TcpServer \<Rightarrow> fault + TcpServer" where
  "Shutdown_linux s =
     (if \<not> shutdown s then
        let s = s\<lparr>shutdown := True\<rparr>
        in if \<not> listener s then Inl Null_deref
        else let s = emit (Comp_Shutdown Listener) s
        in if \<not> recv_thread s then Inl Null_deref
        else let s = emit (Comp_Shutdown Recv_thread) s
        in if \<not> send_thread s then Inl Null_deref
        else
          let s = emit (Comp_Shutdown Send_thread) s;
              s = emit Cv_Signal s;
              s = emit Mq_Join s;
              s = s\<lparr>timeout_record_list := [], free_index_list := []\<rparr>;
              s = shutdown_conns (mgr s) s;
              s = s\<lparr>mgr := []\<rparr>;
              (q, c) = clear_queue (mpscq s) (count s)
          in Inr (s\<lparr>mpscq := q, count := c\<rparr>)
      else Inr s)"

text \<open>\<^verbatim>\<open>TcpServer::~TcpServer\<close>.\<close>

definition TcpServer_dtor :: "TcpServer \<Rightarrow> fault + TcpServer" where
  "TcpServer_dtor s = (if \<not> shutdown s then Shutdown_linux s else Inr s)"

section \<open>Operations on connections\<close>

text \<open>
  \<^verbatim>\<open>TcpServer::Send\<close> (Linux). The result of \<^verbatim>\<open>Connection::Send\<close> is a parameter.
  \<^verbatim>\<open>_mgr[index]\<close> is \<^verbatim>\<open>std::vector::operator[]\<close>: out of range it is undefined.
\<close>

definition Send_linux :: "TcpServer \<Rightarrow> ConnectionId \<Rightarrow> bool \<Rightarrow> fault + bool \<times> TcpServer" where
  "Send_linux s cid conn_Send =
     (let index = CheckConnectionId s cid
      in if index = InvalidIndex then Inr (False, s)
      else if length (mgr s) \<le> unat index then Inl Out_of_bounds
      else case fst (mgr s ! unat index) of
          Some c \<Rightarrow> Inr (conn_Send, emit (Conn_Send (conn_cid c)) s)
        | None \<Rightarrow> Inr (False, s))"

text \<open>\<^verbatim>\<open>TcpServer::GetConnection\<close> (Windows).\<close>

definition GetConnection :: "TcpServer \<Rightarrow> 32 word \<Rightarrow> fault + Connection option" where
  "GetConnection s index =
     (if length (mgr s) \<le> unat index then Inl Out_of_bounds
      else Inr (fst (mgr s ! unat index)))"

text \<open>\<^verbatim>\<open>TcpServer::SendWithHeader\<close> (Windows); \<^verbatim>\<open>Send\<close> calls it with no header.\<close>

definition SendWithHeader_win :: "TcpServer \<Rightarrow> ConnectionId \<Rightarrow> bool
    \<Rightarrow> fault + bool \<times> TcpServer" where
  "SendWithHeader_win s cid conn_Send =
     (let index = CheckConnectionId s cid
      in if index = InvalidIndex then Inr (False, s)
      else case GetConnection s index of
          Inl f \<Rightarrow> Inl f
        | Inr (Some c) \<Rightarrow> Inr (conn_Send, emit (Conn_Send (conn_cid c)) s)
        | Inr None \<Rightarrow> Inr (False, s))"

definition Send_win :: "TcpServer \<Rightarrow> ConnectionId \<Rightarrow> bool \<Rightarrow> fault + bool \<times> TcpServer" where
  "Send_win s cid conn_Send = SendWithHeader_win s cid conn_Send"

text \<open>
  \<^verbatim>\<open>TcpServer::DeleteConnection\<close> (Linux): no test of the slot. \<^verbatim>\<open>delete\<close> of a null
  pointer does nothing; \<^verbatim>\<open>erase\<close> of the slot's iterator is undefined when the iterator
  is \<^verbatim>\<open>end()\<close> or singular.
\<close>

definition DeleteConnection_linux :: "TcpServer \<Rightarrow> 32 word \<Rightarrow> fault + TcpServer" where
  "DeleteConnection_linux s index =
     (if length (mgr s) \<le> unat index then Inl Out_of_bounds
      else case mm_erase (snd (mgr s ! unat index)) (timeout_record_list s) of
          Inl f \<Rightarrow> Inl f
        | Inr es \<Rightarrow>
            Inr (s\<lparr>mgr := (mgr s)[unat index := (None, End)],
                   timeout_record_list := es,
                   free_index_list := free_index_list s @ [index]\<rparr>))"

text \<open>\<^verbatim>\<open>TcpServer::DeleteConnection\<close> (Windows): returns at once on an empty slot.\<close>

definition DeleteConnection_win :: "TcpServer \<Rightarrow> 32 word \<Rightarrow> fault + TcpServer" where
  "DeleteConnection_win s index =
     (if length (mgr s) \<le> unat index then Inl Out_of_bounds
      else if fst (mgr s ! unat index) = None then Inr s
      else case mm_erase (snd (mgr s ! unat index)) (timeout_record_list s) of
          Inl f \<Rightarrow> Inl f
        | Inr es \<Rightarrow>
            Inr (s\<lparr>mgr := (mgr s)[unat index := (None, End)],
                   timeout_record_list := es,
                   free_index_list := free_index_list s @ [index]\<rparr>))"

text \<open>\<^verbatim>\<open>TcpServer::RefreshTime\<close> (Windows). \<^verbatim>\<open>Now()\<close> is a parameter.\<close>

definition RefreshTime :: "TcpServer \<Rightarrow> 32 word \<Rightarrow> time_t \<Rightarrow> fault + TcpServer" where
  "RefreshTime s index now =
     (if length (mgr s) \<le> unat index then Inl Out_of_bounds
      else if fst (mgr s ! unat index) = None then Inr s
      else
        let deadline_seconds = now + connection_timeout (options s)
        in if \<not> in_time_t deadline_seconds then Inl Signed_overflow
        else case mm_erase (snd (mgr s ! unat index)) (timeout_record_list s) of
            Inl f \<Rightarrow> Inl f
          | Inr es \<Rightarrow>
              let (it, s) = timeout_insert deadline_seconds index (s\<lparr>timeout_record_list := es\<rparr>)
              in Inr (s\<lparr>mgr := (mgr s)[unat index := (fst (mgr s ! unat index), it)]\<rparr>))"

text \<open>\<^verbatim>\<open>TcpServer::CloseConnection\<close>.\<close>

definition CloseConnection_linux :: "TcpServer \<Rightarrow> ConnectionId \<Rightarrow> fault + bool \<times> TcpServer" where
  "CloseConnection_linux s cid =
     (let index = CheckConnectionId s cid
      in if index = InvalidIndex then Inr (False, s)
      else if length (mgr s) \<le> unat index then Inl Out_of_bounds
      else case fst (mgr s ! unat index) of
          Some c \<Rightarrow>
            (case DeleteConnection_linux (emit (Conn_Shutdown (conn_cid c) False) s) index of
               Inl f \<Rightarrow> Inl f
             | Inr s \<Rightarrow> Inr (True, s))
        | None \<Rightarrow> Inr (True, s))"

definition CloseConnection_win :: "TcpServer \<Rightarrow> ConnectionId \<Rightarrow> fault + bool \<times> TcpServer" where
  "CloseConnection_win s cid =
     (let index = CheckConnectionId s cid
      in if index = InvalidIndex then Inr (False, s)
      else case GetConnection s index of
          Inl f \<Rightarrow> Inl f
        | Inr (Some c) \<Rightarrow>
            (case DeleteConnection_win (emit (Conn_Shutdown (conn_cid c) False) s) index of
               Inl f \<Rightarrow> Inl f
             | Inr s \<Rightarrow> Inr (True, s))
        | Inr None \<Rightarrow> Inr (True, s))"

section \<open>Events from the listener and the I/O engine\<close>

text \<open>
  The growth of the slot table in \<^verbatim>\<open>OnNewConnection\<close>: \<^verbatim>\<open>resize(expand)\<close>, then the loop
  over \<open>count \<le> i < expand\<close> that seeds each new slot and its free-list entry.
\<close>

primrec seed_slots :: "nat list \<Rightarrow> TcpServer \<Rightarrow> TcpServer" where
  "seed_slots [] s = s"
| "seed_slots (i # js) s =
     seed_slots js
       (s\<lparr>mgr := (mgr s)[i := (None, End)],
          free_index_list := free_index_list s @ [of_nat i]\<rparr>)"

definition grow :: "TcpServer \<Rightarrow> TcpServer" where
  "grow s =
     (let cnt = length (mgr s);
          cap = unat (max_connections (options s));
          expand = (if cnt * 2 < cap then cnt * 2 else cap)
      in seed_slots [cnt..<expand] (s\<lparr>mgr := resize expand (mgr s)\<rparr>))"

text \<open>\<^verbatim>\<open>TcpServer::OnNewConnection\<close> (Linux). \<^verbatim>\<open>Now()\<close> is a parameter.\<close>

definition OnNewConnection_linux :: "TcpServer \<Rightarrow> int \<Rightarrow> int \<Rightarrow> time_t \<Rightarrow> fault + TcpServer" where
  "OnNewConnection_linux s sock listen_port now =
     (if free_index_list s = [] \<and> unat (max_connections (options s)) \<le> length (mgr s) then
        Inr (emit (Socket_shutdown sock)
              (emit (Log_error ''The maximum number of connections has been reached: %u'') s))
      else
        let s = (if free_index_list s = [] then grow s else s)
        in case free_index_list s of
            [] \<Rightarrow> Inl Empty_front
          | index # rest \<Rightarrow>
              let s = s\<lparr>free_index_list := rest\<rparr>;
                  cid = BuildConnectionId (magic_number s) (word_of_int listen_port) index;
                  deadline_seconds = now + connection_timeout (options s)
              in if \<not> in_time_t deadline_seconds then Inl Signed_overflow
              else if length (mgr s) \<le> unat index then Inl Out_of_bounds
              else
                let conn = Connection cid sock;
                    s = emit (Conn_SetProtocol cid) s;
                    s = emit (Conn_Init cid sock) s;
                    (it, s) = timeout_insert deadline_seconds index s
                in Inr (s\<lparr>mgr := (mgr s)[unat index := (Some conn, it)]\<rparr>))"

text \<open>
  \<^verbatim>\<open>TcpServer::OnNewConnection\<close> (Windows). The value that \<^verbatim>\<open>conn->AsyncRecv()\<close> returns
  is the parameter \<open>conn_AsyncRecv\<close>.
\<close>

definition OnNewConnection_win :: "TcpServer \<Rightarrow> int \<Rightarrow> int \<Rightarrow> time_t \<Rightarrow> bool
    \<Rightarrow> fault + TcpServer" where
  "OnNewConnection_win s sock listen_port now conn_AsyncRecv =
     (if free_index_list s = [] \<and> unat (max_connections (options s)) \<le> length (mgr s) then
        Inr (emit (Socket_shutdown sock)
              (emit (Log_error ''The maximum number of connections has been reached: %u'') s))
      else
        let s = (if free_index_list s = [] then grow s else s)
        in case free_index_list s of
            [] \<Rightarrow> Inl Empty_front
          | index # rest \<Rightarrow>
              let s = s\<lparr>free_index_list := rest\<rparr>;
                  cid = BuildConnectionId (magic_number s) (word_of_int listen_port) index;
                  deadline_second = now + connection_timeout (options s)
              in if \<not> in_time_t deadline_second then Inl Signed_overflow
              else
              let conn = Connection cid sock;
                  s = emit (Conn_Init cid sock) s;
                  s = emit (Conn_SetProtocol cid) s
              in if \<not> rs_thread s then Inl Null_deref
              else
                let s = emit (Iocp_Add sock cid) s;
                    s = emit (Conn_AsyncRecv cid) s
                in if conn_AsyncRecv then
                     Inr ((emit (Conn_Shutdown cid True) s)
                            \<lparr>free_index_list := free_index_list s @ [index]\<rparr>)
                   else if length (mgr s) \<le> unat index then Inl Out_of_bounds
                   else
                     let (it, s) = timeout_insert deadline_second index s
                     in Inr (s\<lparr>mgr := (mgr s)[unat index := (Some conn, it)]\<rparr>))"

text \<open>\<^verbatim>\<open>TcpServer::OnErrorEvent\<close>.\<close>

definition OnErrorEvent_linux :: "TcpServer \<Rightarrow> ConnectionId \<Rightarrow> fault + TcpServer" where
  "OnErrorEvent_linux s cid =
     (let index = CheckConnectionId s cid
      in if index = InvalidIndex then
           Inr (emit (Log_error ''tcpserver: OnErrorEvent found invalid index, cid = %x'') s)
      else if length (mgr s) \<le> unat index then Inl Out_of_bounds
      else case fst (mgr s ! unat index) of
          Some c \<Rightarrow> DeleteConnection_linux (emit (Conn_Shutdown (conn_cid c) True) s) index
        | None \<Rightarrow> Inr s)"

definition OnErrorEvent_win :: "TcpServer \<Rightarrow> ConnectionId \<Rightarrow> fault + TcpServer" where
  "OnErrorEvent_win s cid =
     (let index = CheckConnectionId s cid
      in if index = InvalidIndex then
           Inr (emit (Log_error ''tcpserver: OnErrorEvent found invalid index, cid = %x'') s)
      else case GetConnection s index of
          Inl f \<Rightarrow> Inl f
        | Inr (Some c) \<Rightarrow> DeleteConnection_win (emit (Conn_Shutdown (conn_cid c) True) s) index
        | Inr None \<Rightarrow> Inr s)"

text \<open>
  \<^verbatim>\<open>TcpServer::OnRecvEvent\<close> and \<^verbatim>\<open>TcpServer::OnSendEvent\<close> (Linux): the connection
  pointer of the slot is dereferenced without a test. The results of
  \<^verbatim>\<open>DoRecvEvent()\<close>, \<^verbatim>\<open>DoSendEvent()\<close> and \<^verbatim>\<open>Now()\<close> are parameters.
\<close>

definition io_event_linux :: "event \<Rightarrow> string \<Rightarrow> TcpServer \<Rightarrow> 32 word \<Rightarrow> Connection \<Rightarrow> bool
    \<Rightarrow> time_t \<Rightarrow> fault + TcpServer" where
  "io_event_linux ev msg s index c ok now =
     (let s = emit ev s
      in if \<not> ok then
           DeleteConnection_linux
             (emit (Conn_Shutdown (conn_cid c) True) (emit (Log_error msg) s)) index
         else
           let deadline_seconds = now + connection_timeout (options s)
           in if \<not> in_time_t deadline_seconds then Inl Signed_overflow
           else case mm_erase (snd (mgr s ! unat index)) (timeout_record_list s) of
               Inl f \<Rightarrow> Inl f
             | Inr es \<Rightarrow>
                 let (it, s) = timeout_insert deadline_seconds index (s\<lparr>timeout_record_list := es\<rparr>)
                 in Inr (s\<lparr>mgr := (mgr s)[unat index := (fst (mgr s ! unat index), it)]\<rparr>))"

definition OnRecvEvent_linux :: "TcpServer \<Rightarrow> ConnectionId \<Rightarrow> bool \<Rightarrow> time_t
    \<Rightarrow> fault + TcpServer" where
  "OnRecvEvent_linux s cid conn_DoRecvEvent now =
     (let index = CheckConnectionId s cid
      in if index = InvalidIndex then
           Inr (emit (Log_error ''tcpserver: OnRecvEvent found invalid index, cid = %x'') s)
      else if length (mgr s) \<le> unat index then Inl Out_of_bounds
      else case fst (mgr s ! unat index) of
          None \<Rightarrow> Inl Null_deref
        | Some c \<Rightarrow>
            io_event_linux (Conn_DoRecvEvent (conn_cid c))
              ''tcpserver: Failed to post async recv'' s index c conn_DoRecvEvent now)"

definition OnSendEvent_linux :: "TcpServer \<Rightarrow> ConnectionId \<Rightarrow> bool \<Rightarrow> time_t
    \<Rightarrow> fault + TcpServer" where
  "OnSendEvent_linux s cid conn_DoSendEvent now =
     (let index = CheckConnectionId s cid
      in if index = InvalidIndex then
           Inr (emit (Log_error ''tcpserver: OnRecvEvent found invalid index, cid = %x'') s)
      else if length (mgr s) \<le> unat index then Inl Out_of_bounds
      else case fst (mgr s ! unat index) of
          None \<Rightarrow> Inl Null_deref
        | Some c \<Rightarrow>
            io_event_linux (Conn_DoSendEvent (conn_cid c))
              ''tcpserver: Failed to post async send'' s index c conn_DoSendEvent now)"

text \<open>
  \<^verbatim>\<open>TcpServer::OnRecvEvent\<close> and \<^verbatim>\<open>TcpServer::OnSendEvent\<close> (Windows): they return at
  once when \<^verbatim>\<open>GetConnection\<close> gives a null pointer.
\<close>

definition io_event_win :: "event \<Rightarrow> string \<Rightarrow> TcpServer \<Rightarrow> 32 word \<Rightarrow> Connection \<Rightarrow> bool
    \<Rightarrow> time_t \<Rightarrow> fault + TcpServer" where
  "io_event_win ev msg s index c ok now =
     (let s = emit ev s
      in if ok then RefreshTime s index now
         else case DeleteConnection_win (emit (Conn_Shutdown (conn_cid c) True) s) index of
             Inl f \<Rightarrow> Inl f
           | Inr s \<Rightarrow> Inr (emit (Log_error msg) s))"

definition OnRecvEvent_win :: "TcpServer \<Rightarrow> ConnectionId \<Rightarrow> bool \<Rightarrow> time_t
    \<Rightarrow> fault + TcpServer" where
  "OnRecvEvent_win s cid conn_OnRecvEvent now =
     (let index = CheckConnectionId s cid
      in if index = InvalidIndex then
           Inr (emit (Log_error ''tcpserver: OnRecvEvent found invalid index, cid = %x'') s)
      else case GetConnection s index of
          Inl f \<Rightarrow> Inl f
        | Inr None \<Rightarrow> Inr s
        | Inr (Some c) \<Rightarrow>
            io_event_win (Conn_DoRecvEvent (conn_cid c))
              ''tcpserver: Failed to post async recv'' s index c conn_OnRecvEvent now)"

definition OnSendEvent_win :: "TcpServer \<Rightarrow> ConnectionId \<Rightarrow> bool \<Rightarrow> time_t
    \<Rightarrow> fault + TcpServer" where
  "OnSendEvent_win s cid conn_OnSendEvent now =
     (let index = CheckConnectionId s cid
      in if index = InvalidIndex then
           Inr (emit (Log_error ''tcpserver: OnRecvEvent found invalid index, cid = %x'') s)
      else case GetConnection s index of
          Inl f \<Rightarrow> Inl f
        | Inr None \<Rightarrow> Inr s
        | Inr (Some c) \<Rightarrow>
            io_event_win (Conn_DoSendEvent (conn_cid c))
              ''tcpserver: Failed to post async send'' s index c conn_OnSendEvent now)"

section \<open>The timeout sweep\<close>

lemma mm_deref_Some:
  "mm_deref it xs = Some x \<Longrightarrow> x \<in> set xs \<and> it = At (e_node x)"
  by (cases it) (auto simp: mm_deref_def find_Some_iff)

lemma mm_erase_shorter:
  assumes "mm_erase it xs = Inr ys"
  shows "length ys < length xs"
proof -
  from assms obtain x where x: "mm_deref it xs = Some x"
    and ys: "ys = filter (\<lambda>y. e_node y \<noteq> e_node x) xs"
    by (auto simp: mm_erase_def split: option.splits)
  from x have "x \<in> set xs" by (simp add: mm_deref_Some)
  then show ?thesis unfolding ys by (intro length_filter_less) auto
qed

lemma DeleteConnection_linux_shorter:
  "DeleteConnection_linux s index = Inr s'
     \<Longrightarrow> length (timeout_record_list s') < length (timeout_record_list s)"
  by (auto simp: DeleteConnection_linux_def split: if_splits sum.splits dest: mm_erase_shorter)

text \<open>
  The loop of \<^verbatim>\<open>OnCheckingEvent\<close>, from the iterator \<open>it\<close> on: stop at \<^verbatim>\<open>end()\<close> or at
  the first key above \<open>current\<close>; otherwise read the index, advance the iterator, shut the
  connection of that slot down and delete it. On Linux the body calls
  \<^verbatim>\<open>DeleteConnection\<close>; on Windows the same four statements stand in the loop itself
  (with \<^verbatim>\<open>reset()\<close> of the shared pointer for \<^verbatim>\<open>delete\<close>), so both platforms share this
  function. Each round erases a node or faults, which is why the loop ends.
\<close>

function sweep :: "TcpServer \<Rightarrow> time_t \<Rightarrow> tm_iter \<Rightarrow> fault + TcpServer" where
  "sweep s current it =
     (case it of
        End \<Rightarrow> Inr s
      | Singular \<Rightarrow> Inl Invalid_iterator
      | At n \<Rightarrow>
          (case mm_deref it (timeout_record_list s) of
             None \<Rightarrow> Inl Invalid_iterator
           | Some e \<Rightarrow>
               if current < e_key e then Inr s
               else
                 let index = e_val e;
                     it' = mm_next n (timeout_record_list s)
                 in if length (mgr s) \<le> unat index then Inl Out_of_bounds
                 else case fst (mgr s ! unat index) of
                     None \<Rightarrow> Inl Null_deref
                   | Some c \<Rightarrow>
                       (case DeleteConnection_linux
                               (emit (Conn_Shutdown (conn_cid c) True) s) index of
                          Inl f \<Rightarrow> Inl f
                        | Inr s' \<Rightarrow> sweep s' current it')))"
  by pat_completeness auto
termination
proof (relation "measure (\<lambda>(s, current, it). length (timeout_record_list s))")
  show "wf (measure (\<lambda>(s, current, it). length (timeout_record_list s)))" by simp
next
  fix s :: TcpServer and current it x3 x2 x xa ya c x2a
  assume "DeleteConnection_linux (emit (Conn_Shutdown (conn_cid c) True) s) x = Inr x2a"
  then have "length (timeout_record_list x2a)
      < length (timeout_record_list (emit (Conn_Shutdown (conn_cid c) True) s))"
    by (rule DeleteConnection_linux_shorter)
  then show "((x2a, current, xa), s, current, it)
      \<in> measure (\<lambda>(s, current, it). length (timeout_record_list s))"
    by (simp add: emit_def)
qed

declare sweep.simps [simp del]

text \<open>
  \<^verbatim>\<open>TcpServer::OnCheckingEvent\<close>: at least 1 second between two sweeps on Linux, at least
  3 seconds on Windows. The difference of the two times is a 64-bit subtraction.
\<close>

definition OnCheckingEvent_linux :: "TcpServer \<Rightarrow> time_t \<Rightarrow> fault + TcpServer" where
  "OnCheckingEvent_linux s current =
     (if \<not> in_time_t (current - last_timeout_time s) then Inl Signed_overflow
      else if current - last_timeout_time s < 1 then Inr s
      else let s = s\<lparr>last_timeout_time := current\<rparr>
           in sweep s current (mm_begin (timeout_record_list s)))"

definition OnCheckingEvent_win :: "TcpServer \<Rightarrow> time_t \<Rightarrow> fault + TcpServer" where
  "OnCheckingEvent_win s current =
     (if \<not> in_time_t (current - last_timeout_time s) then Inl Signed_overflow
      else if current - last_timeout_time s < 3 then Inr s
      else let s = s\<lparr>last_timeout_time := current\<rparr>
           in sweep s current (mm_begin (timeout_record_list s)))"

section \<open>Notifications and dispatch\<close>

text \<open>
  \<^verbatim>\<open>OnConnectionArrived\<close>, \<^verbatim>\<open>OnDataReceived\<close> and \<^verbatim>\<open>OnConnectionClosed\<close> push a node,
  bump \<^verbatim>\<open>_count\<close> and signal; \<^verbatim>\<open>Dispatch\<close> calls the service for a node.
\<close>

definition push_message :: "MessageType \<Rightarrow> ConnectionId \<Rightarrow> TcpServer \<Rightarrow> TcpServer" where
  "push_message ty cid s =
     emit Cv_Signal (s\<lparr>mpscq := mpscq s @ [TcpMessageNode ty cid], count := count s + 1\<rparr>)"

definition OnConnectionArrived :: "TcpServer \<Rightarrow> ConnectionId \<Rightarrow> TcpServer" where
  "OnConnectionArrived s cid = push_message kNewConnection cid s"

definition OnDataReceived :: "TcpServer \<Rightarrow> ConnectionId \<Rightarrow> TcpServer" where
  "OnDataReceived s cid = push_message kRecvAMessage cid s"

definition OnConnectionClosed :: "TcpServer \<Rightarrow> ConnectionId \<Rightarrow> TcpServer" where
  "OnConnectionClosed s cid = push_message kCloseClient cid s"

definition Dispatch :: "TcpServer \<Rightarrow> TcpMessageNode \<Rightarrow> TcpServer" where
  "Dispatch s msg =
     (case msg_type msg of
        kNewConnection \<Rightarrow> emit (Service_OnConnected (msg_cid msg)) s
      | kRecvAMessage \<Rightarrow> emit (Service_OnMessageReceived (msg_cid msg)) s
      | kCloseClient \<Rightarrow> emit (Service_OnClosed (msg_cid msg)) s)"

section \<open>Facts about the codec and the validation\<close>

lemma GetUserId_Build: "GetUserId (BuildConnectionId m p i) = i"
  unfolding GetUserId_def BuildConnectionId_def
  by (rule bit_word_eqI) (auto simp: bit_simps dest: bit_imp_le_length)

lemma GetMagicNumber_Build: "GetMagicNumber (BuildConnectionId m p i) = m"
  unfolding GetMagicNumber_def BuildConnectionId_def
  by (rule bit_word_eqI) (auto simp: bit_simps dest: bit_imp_le_length)

lemma GetListenPort_Build: "GetListenPort (BuildConnectionId m p i) = p"
  unfolding GetListenPort_def BuildConnectionId_def
  by (rule bit_word_eqI) (auto simp: bit_simps dest: bit_imp_le_length)

lemma GetUserId_Invalid: "GetUserId InvalidConnectionId = - 1"
  unfolding GetUserId_def InvalidConnectionId_def
  by (rule bit_word_eqI) (auto simp: bit_simps)

lemma Build_not_Invalid:
  assumes "i \<noteq> - 1"
  shows "BuildConnectionId m p i \<noteq> InvalidConnectionId"
proof
  assume "BuildConnectionId m p i = InvalidConnectionId"
  then have "GetUserId (BuildConnectionId m p i) = GetUserId InvalidConnectionId"
    by simp
  then have "i = - 1"
    by (simp add: GetUserId_Build GetUserId_Invalid)
  with assms show False by simp
qed

lemma below_cap_not_InvalidIndex:
  fixes uid :: "32 word"
  assumes "\<not> cap \<le> uid"
  shows "uid \<noteq> InvalidIndex"
proof
  assume "uid = InvalidIndex"
  then have "cap \<le> uid" by (simp add: InvalidIndex_def)
  with assms show False by simp
qed

text \<open>
  C3. For every 64-bit cid, \<open>CheckConnectionId\<close> returns \<open>InvalidIndex\<close> exactly when the
  cid is the invalid sentinel, or its magic field differs from the server's magic, or
  its embedded index is at least \<open>max_connections\<close>; otherwise it returns the embedded
  index.
\<close>

theorem CheckConnectionId_exact:
  "(CheckConnectionId s cid = InvalidIndex) =
     (cid = InvalidConnectionId \<or> GetMagicNumber cid \<noteq> magic_number s
      \<or> max_connections (options s) \<le> GetUserId cid)
   \<and> (CheckConnectionId s cid \<noteq> InvalidIndex
        \<longrightarrow> CheckConnectionId s cid = GetUserId cid)"
  using below_cap_not_InvalidIndex [of "max_connections (options s)" "GetUserId cid"]
  by (auto simp: CheckConnectionId_def Let_def)

theorem CheckConnectionId_exact_witness:
  "CheckConnectionId (TcpServer_ctor \<lparr>max_connections = 2, connection_timeout = 60\<rparr> 0x1234)
     (BuildConnectionId 0x1234 80 1) = 1"
  using CheckConnectionId_exact
    [of "TcpServer_ctor \<lparr>max_connections = 2, connection_timeout = 60\<rparr> 0x1234"
        "BuildConnectionId 0x1234 80 1"]
  by (simp add: GetUserId_Build GetMagicNumber_Build Build_not_Invalid TcpServer_ctor_def
      InvalidIndex_def word_le_nat_alt)

section \<open>Basic facts\<close>

lemma emit_fields [simp]:
  "shutdown (emit e s) = shutdown s"
  "options (emit e s) = options s"
  "listener (emit e s) = listener s"
  "recv_thread (emit e s) = recv_thread s"
  "send_thread (emit e s) = send_thread s"
  "rs_thread (emit e s) = rs_thread s"
  "mpscq (emit e s) = mpscq s"
  "count (emit e s) = count s"
  "mgr (emit e s) = mgr s"
  "timeout_record_list (emit e s) = timeout_record_list s"
  "free_index_list (emit e s) = free_index_list s"
  "magic_number (emit e s) = magic_number s"
  "last_timeout_time (emit e s) = last_timeout_time s"
  "next_node (emit e s) = next_node s"
  "trace (emit e s) = trace s @ [e]"
  by (simp_all add: emit_def)

lemma upt_map_Cons: "i < j \<Longrightarrow> map f [i..<j] = f i # map f [Suc i..<j]"
  by (simp add: upt_conv_Cons)

lemma Init_linux_ok:
  "shutdown s \<Longrightarrow>
   Init_linux s opts RAPTOR_ERROR_NONE RAPTOR_ERROR_NONE RAPTOR_ERROR_NONE n =
     (RAPTOR_ERROR_NONE,
      s\<lparr>shutdown := False, options := opts, listener := True, recv_thread := True,
        send_thread := True, count := 0,
        mgr := resize RESERVED_CONNECTION_COUNT (mgr s),
        free_index_list := free_index_list s @ map of_nat [0..<RESERVED_CONNECTION_COUNT],
        magic_number := word_of_int (drop_bit 16 n AND 0xffff),
        last_timeout_time := n,
        trace := trace s @ [Comp_Init Listener, Comp_Init Recv_thread, Comp_Init Send_thread,
                            Comp_Init Mq_thd]\<rparr>)"
  by (simp add: Init_linux_def Let_def emit_def)

text \<open>An accept with a free index at hand takes it, whatever \<open>max_connections\<close> is.\<close>

lemma OnNewConnection_linux_free:
  assumes "free_index_list s = index # rest" and "unat index < length (mgr s)"
    and "in_time_t (now + connection_timeout (options s))"
  shows "OnNewConnection_linux s sock listen_port now =
     Inr (s\<lparr>free_index_list := rest,
            trace := trace s @
              [Conn_SetProtocol
                 (BuildConnectionId (magic_number s) (word_of_int listen_port) index),
               Conn_Init
                 (BuildConnectionId (magic_number s) (word_of_int listen_port) index) sock],
            timeout_record_list :=
              mm_insert (TimeoutEntry (now + connection_timeout (options s)) index (next_node s))
                (timeout_record_list s),
            next_node := Suc (next_node s),
            mgr := (mgr s)[unat index :=
              (Some (Connection
                  (BuildConnectionId (magic_number s) (word_of_int listen_port) index) sock),
               At (next_node s))]\<rparr>)"
  using assms by (simp add: OnNewConnection_linux_def Let_def timeout_insert_def emit_def)

text \<open>
  An accept with no free index and a table of at least \<open>max_connections\<close> slots is
  refused: a log line, the socket shut down, nothing else.
\<close>

lemma OnNewConnection_linux_full:
  assumes "free_index_list s = []" and "unat (max_connections (options s)) \<le> length (mgr s)"
  shows "OnNewConnection_linux s sock listen_port now =
     Inr (s\<lparr>trace := trace s @
            [Log_error ''The maximum number of connections has been reached: %u'',
             Socket_shutdown sock]\<rparr>)"
  using assms by (simp add: OnNewConnection_linux_def emit_def)

section \<open>A running example\<close>

text \<open>
  A Linux server initialised at time 1600000000 with \<open>max_connections = 2\<close> and a timeout
  of 60 seconds. Its magic is \<open>0x5F5E\<close>.
\<close>

definition example_options :: RaptorOptions where
  "example_options = \<lparr>max_connections = 2, connection_timeout = 60\<rparr>"

definition example_now :: time_t where
  "example_now = 1600000000"

definition example_server :: TcpServer where
  "example_server =
     snd (Init_linux (TcpServer_ctor example_options 0) example_options
            RAPTOR_ERROR_NONE RAPTOR_ERROR_NONE RAPTOR_ERROR_NONE example_now)"

definition example_cid :: "32 word \<Rightarrow> ConnectionId" where
  "example_cid i = BuildConnectionId 0x5F5E 80 i"

lemma example_magic: "word_of_int (drop_bit 16 example_now AND 0xffff) = (0x5F5E :: 16 word)"
  by (simp add: example_now_def)

lemma example_server_eq:
  "example_server =
     \<lparr>shutdown = False, options = example_options, listener = True, recv_thread = True,
      send_thread = True, rs_thread = False, mpscq = [], count = 0,
      mgr = replicate 100 (None, Singular),
      timeout_record_list = [], free_index_list = map of_nat [0..<100],
      magic_number = 0x5F5E, last_timeout_time = example_now, next_node = 0,
      trace = [Comp_Init Listener, Comp_Init Recv_thread, Comp_Init Send_thread,
               Comp_Init Mq_thd]\<rparr>"
  by (simp add: example_server_def Init_linux_ok TcpServer_ctor_def example_magic resize_def
      RESERVED_CONNECTION_COUNT_def)

section \<open>The connection cap\<close>

text \<open>
  C1. With \<open>max_connections = 2\<close>, three clients connect in sequence; the claim is that
  the first two are accepted and the third is refused, with a log line, its socket shut
  down and the slot table unchanged. On the code the third accept is not refused:
  \<open>Init\<close> has put 100 indices on the free-list, so the third client gets slot 2, its
  connection is initialised, nothing is logged and no socket is shut down. The
  identifier it was given does not pass \<open>CheckConnectionId\<close>.
\<close>

theorem third_client_is_accepted:
  "\<exists>s1 s2 s3.
     OnNewConnection_linux example_server 11 80 example_now = Inr s1
   \<and> OnNewConnection_linux s1 12 80 example_now = Inr s2
   \<and> OnNewConnection_linux s2 13 80 example_now = Inr s3
   \<and> fst (mgr s1 ! 0) = Some (Connection (example_cid 0) 11)
   \<and> fst (mgr s2 ! 1) = Some (Connection (example_cid 1) 12)
   \<and> fst (mgr s2 ! 2) = None
   \<and> fst (mgr s3 ! 2) = Some (Connection (example_cid 2) 13)
   \<and> trace s3 = trace s2 @ [Conn_SetProtocol (example_cid 2), Conn_Init (example_cid 2) 13]
   \<and> CheckConnectionId s3 (example_cid 2) = InvalidIndex"
  apply (simp add: example_server_eq)
  apply (subst OnNewConnection_linux_free [where index = 0 and rest = "map of_nat [1..<100]"])
     apply (simp add: upt_map_Cons)
    apply simp
   apply (simp add: example_options_def example_now_def in_time_t_def)
  apply (simp add: example_options_def)
  apply (subst OnNewConnection_linux_free [where index = 1 and rest = "map of_nat [2..<100]"])
     apply (simp add: upt_map_Cons)
    apply simp
   apply (simp add: example_options_def example_now_def in_time_t_def)
  apply simp
  apply (subst OnNewConnection_linux_free [where index = 2 and rest = "map of_nat [3..<100]"])
     apply (simp add: upt_map_Cons)
    apply simp
   apply (simp add: example_options_def example_now_def in_time_t_def)
  apply (simp add: example_cid_def CheckConnectionId_def GetUserId_Build GetMagicNumber_Build
      Build_not_Invalid InvalidIndex_def)
  done

text \<open>The example after two clients were accepted, at times 1600000000 and 1600000010.\<close>

definition example_two :: TcpServer where
  "example_two =
     \<lparr>shutdown = False, options = example_options, listener = True, recv_thread = True,
      send_thread = True, rs_thread = False, mpscq = [], count = 0,
      mgr = (replicate 100 (None, Singular))
              [0 := (Some (Connection (example_cid 0) 11), At 0),
               1 := (Some (Connection (example_cid 1) 12), At 1)],
      timeout_record_list =
        [TimeoutEntry (example_now + 60) 0 0, TimeoutEntry (example_now + 70) 1 1],
      free_index_list = map of_nat [2..<100],
      magic_number = 0x5F5E, last_timeout_time = example_now, next_node = 2,
      trace = [Comp_Init Listener, Comp_Init Recv_thread, Comp_Init Send_thread,
               Comp_Init Mq_thd,
               Conn_SetProtocol (example_cid 0), Conn_Init (example_cid 0) 11,
               Conn_SetProtocol (example_cid 1), Conn_Init (example_cid 1) 12]\<rparr>"

lemma example_two_reached:
  "\<exists>s1. OnNewConnection_linux example_server 11 80 example_now = Inr s1
      \<and> OnNewConnection_linux s1 12 80 (example_now + 10) = Inr example_two"
  apply (simp add: example_server_eq)
  apply (subst OnNewConnection_linux_free [where index = 0 and rest = "map of_nat [1..<100]"])
     apply (simp add: upt_map_Cons)
    apply simp
   apply (simp add: example_options_def example_now_def in_time_t_def)
  apply (simp add: example_options_def)
  apply (subst OnNewConnection_linux_free [where index = 1 and rest = "map of_nat [2..<100]"])
     apply (simp add: upt_map_Cons)
    apply simp
   apply (simp add: example_options_def example_now_def in_time_t_def)
  apply (simp add: example_two_def example_cid_def example_options_def)
  done

section \<open>Shutdown\<close>

lemma shutdown_conns_eq:
  "shutdown_conns objs s =
     s\<lparr>trace := trace s
          @ map (\<lambda>c. Conn_Shutdown (conn_cid c) False) (List.map_filter fst objs)\<rparr>"
  by (induction objs arbitrary: s)
    (auto simp: emit_def List.map_filter_simps split: option.splits)

lemma clear_queue_empty: "fst (clear_queue q c) = []"
  by (induction q c rule: clear_queue.induct) auto

lemma Shutdown_linux_post:
  assumes "Shutdown_linux s = Inr s'"
  shows "shutdown s'"
  using assms
  by (auto simp: Shutdown_linux_def Let_def shutdown_conns_eq split: if_splits prod.splits)

text \<open>What the first call leaves: no slot, no timeout entry, no free index, no message.\<close>

lemma Shutdown_linux_cleared:
  assumes "Shutdown_linux s = Inr s'" and "\<not> shutdown s"
  shows "mgr s' = [] \<and> timeout_record_list s' = [] \<and> free_index_list s' = []
     \<and> mpscq s' = []"
  using assms clear_queue_empty [of "mpscq s" "count s"]
  by (auto simp: Shutdown_linux_def Let_def shutdown_conns_eq split: if_splits prod.splits)

lemma Shutdown_linux_noop: "shutdown s \<Longrightarrow> Shutdown_linux s = Inr s"
  by (simp add: Shutdown_linux_def)

lemma Shutdown_linux_total:
  "listener s \<Longrightarrow> recv_thread s \<Longrightarrow> send_thread s \<Longrightarrow> \<exists>s'. Shutdown_linux s = Inr s'"
  by (simp add: Shutdown_linux_def Let_def split: prod.splits)

text \<open>
  C8. Calling \<open>Shutdown\<close> twice is the same as calling it once: the second call returns
  the state the first one left, unchanged in every field. \<open>Shutdown\<close> returns on every
  server whose listener and I/O threads exist (every server \<open>Init\<close> has run on), and the
  destructor of a server that is not shut down is \<open>Shutdown\<close>.
\<close>

theorem Shutdown_twice:
  "(\<forall>s'. Shutdown_linux s = Inr s' \<longrightarrow> shutdown s' \<and> Shutdown_linux s' = Inr s')
   \<and> (listener s \<and> recv_thread s \<and> send_thread s \<longrightarrow> (\<exists>s'. Shutdown_linux s = Inr s'))
   \<and> (\<not> shutdown s \<longrightarrow> TcpServer_dtor s = Shutdown_linux s)"
  by (auto simp: Shutdown_linux_post Shutdown_linux_noop Shutdown_linux_total TcpServer_dtor_def)

theorem Shutdown_twice_witness:
  "\<exists>s'. TcpServer_dtor example_two = Inr s' \<and> Shutdown_linux example_two = Inr s'
      \<and> Shutdown_linux s' = Inr s'"
proof -
  have run: "listener example_two \<and> recv_thread example_two \<and> send_thread example_two"
    and live: "\<not> shutdown example_two"
    by (simp_all add: example_two_def)
  from run Shutdown_twice [of example_two]
  obtain s' where "Shutdown_linux example_two = Inr s'"
    by blast
  with Shutdown_twice [of example_two] live show ?thesis by auto
qed

section \<open>Lifecycle checks of Init and Start\<close>

text \<open>
  The example server after a first, successful \<open>Start\<close>, and a Windows server
  initialised like the Linux example.
\<close>

definition example_running :: TcpServer where
  "example_running =
     emit (Comp_Start Mq_thd) (emit (Comp_Start Send_thread)
       (emit (Comp_Start Recv_thread) (emit (Comp_Start Listener) example_server)))"

lemma example_running_reached:
  "Start_linux example_server True True True = Inr (RAPTOR_ERROR_NONE, example_running)"
  by (simp add: Start_linux_def example_running_def example_server_eq Let_def)

definition example_win :: TcpServer where
  "example_win =
     snd (Init_win (TcpServer_ctor example_options 0) example_options
            RAPTOR_ERROR_NONE RAPTOR_ERROR_NONE example_now)"

lemma example_win_eq:
  "example_win =
     \<lparr>shutdown = False, options = example_options, listener = True, recv_thread = False,
      send_thread = False, rs_thread = True, mpscq = [], count = 0,
      mgr = replicate 100 (None, Singular),
      timeout_record_list = [], free_index_list = map of_nat [0..<100],
      magic_number = 0x5F5E, last_timeout_time = example_now, next_node = 0,
      trace = [Comp_Init Listener, Comp_Init Rs_thread, Comp_Init Mq_thd]\<rparr>"
  by (simp add: example_win_def Init_win_def Let_def emit_def TcpServer_ctor_def example_magic
      resize_def RESERVED_CONNECTION_COUNT_def)

text \<open>The example server after \<open>Shutdown\<close>.\<close>

lemma shutdown_conns_empty_slots: "shutdown_conns (replicate k (None, it)) s = s"
  by (induction k) simp_all

definition example_stopped :: TcpServer where
  "example_stopped =
     example_server\<lparr>shutdown := True, mgr := [], free_index_list := [],
       trace := trace example_server @
         [Comp_Shutdown Listener, Comp_Shutdown Recv_thread, Comp_Shutdown Send_thread,
          Cv_Signal, Mq_Join]\<rparr>"

lemma example_stopped_reached: "Shutdown_linux example_server = Inr example_stopped"
  by (simp add: example_server_eq example_stopped_def Shutdown_linux_def Let_def
      shutdown_conns_empty_slots emit_def)

text \<open>
  \<open>Init\<close> tests \<^verbatim>\<open>_shutdown\<close>: on a server that is initialised or running it returns an error
  and leaves the state unchanged.
\<close>

lemma Init_rejected_while_running:
  assumes "\<not> shutdown s"
  shows "Init_linux s opts e1 e2 e3 n = (RAPTOR_ERROR ''tcp server already running'', s)"
    and "Init_win s opts e1 e2 n = (RAPTOR_ERROR ''tcp server already running'', s)"
  using assms by (simp_all add: Init_linux_def Init_win_def)

text \<open>\<open>Start\<close> never reads \<^verbatim>\<open>_shutdown\<close>: its result is the same whatever the flag is.\<close>

lemma Start_ignores_shutdown:
  "Start_linux (s\<lparr>shutdown := f\<rparr>) a b c =
     (case Start_linux s a b c of
        Inl x \<Rightarrow> Inl x
      | Inr (e, s') \<Rightarrow> Inr (e, s'\<lparr>shutdown := f\<rparr>))"
  "Start_win (s\<lparr>shutdown := f\<rparr>) a b =
     (case Start_win s a b of
        Inl x \<Rightarrow> Inl x
      | Inr (e, s') \<Rightarrow> Inr (e, s'\<lparr>shutdown := f\<rparr>))"
  by (simp_all add: Start_linux_def Start_win_def Let_def emit_def)

text \<open>
  C6. The claim is that \<open>Init\<close> returns a structured error on a running server, leaving
  its state unchanged, and that \<open>Start\<close> returns a structured error, starting nothing,
  when the server is not in the state Initialised. The first half holds. \<open>Start\<close> has no
  test of the state, unlike \<open>Init\<close> and \<^verbatim>\<open>AddListeningPort\<close>: on a server never
  initialised it calls through the null \<^verbatim>\<open>_listener\<close>; on a server that was shut down,
  and on one that is already running, it starts the listener, both I/O threads and the
  dispatch thread and returns no error when they start.
\<close>

theorem Start_outside_initialised:
  "Start_linux (TcpServer_ctor example_options 0) True True True = Inl Null_deref
   \<and> Start_win (TcpServer_ctor example_options 0) True True = Inl Null_deref
   \<and> Shutdown_linux example_server = Inr example_stopped
   \<and> shutdown example_stopped
   \<and> Start_linux example_stopped True True True =
       Inr (RAPTOR_ERROR_NONE,
            emit (Comp_Start Mq_thd) (emit (Comp_Start Send_thread)
              (emit (Comp_Start Recv_thread) (emit (Comp_Start Listener) example_stopped))))
   \<and> Start_linux example_server True True True = Inr (RAPTOR_ERROR_NONE, example_running)
   \<and> Start_linux example_running True True True =
       Inr (RAPTOR_ERROR_NONE,
            emit (Comp_Start Mq_thd) (emit (Comp_Start Send_thread)
              (emit (Comp_Start Recv_thread) (emit (Comp_Start Listener) example_running))))"
  by (simp add: example_stopped_reached example_running_reached)
    (simp add: Start_linux_def Start_win_def example_running_def example_stopped_def
      example_server_eq Let_def TcpServer_ctor_def)

section \<open>Eviction of an empty slot\<close>

lemma mm_erase_no_node [simp]:
  "mm_erase End xs = Inl Invalid_iterator"
  "mm_erase Singular xs = Inl Invalid_iterator"
  by (simp_all add: mm_erase_def mm_deref_def)

lemma DeleteConnection_win_empty:
  "unat index < length (mgr s) \<Longrightarrow> fst (mgr s ! unat index) = None
     \<Longrightarrow> DeleteConnection_win s index = Inr s"
  by (simp add: DeleteConnection_win_def)

lemma DeleteConnection_win_leaves_empty:
  assumes "DeleteConnection_win s index = Inr s'"
  shows "unat index < length (mgr s') \<and> fst (mgr s' ! unat index) = None"
  using assms
  by (auto simp: DeleteConnection_win_def split: if_splits sum.splits)

text \<open>The example after the connection of slot 0 was deleted.\<close>

definition example_evicted :: TcpServer where
  "example_evicted =
     example_two\<lparr>mgr := (mgr example_two)[0 := (None, End)],
                 timeout_record_list := [TimeoutEntry (example_now + 70) 1 1],
                 free_index_list := map of_nat [2..<100] @ [0]\<rparr>"

text \<open>
  C5 as stated fails on Linux: \<open>DeleteConnection\<close> has no test of the slot there. Called a
  second time on slot 0 it erases the \<^verbatim>\<open>end()\<close> iterator the first call stored, which is
  undefined (and the statement after it would push index 0 on the free-list again).
\<close>

theorem DeleteConnection_linux_twice:
  "DeleteConnection_linux example_two 0 = Inr example_evicted
   \<and> DeleteConnection_linux example_evicted 0 = Inl Invalid_iterator"
  by (simp add: DeleteConnection_linux_def example_evicted_def example_two_def mm_erase_def
      mm_deref_def)

text \<open>
  C5, amended. On Windows \<open>DeleteConnection\<close> on an empty slot returns at once and changes
  nothing, so deleting a slot twice is deleting it once. On Linux the test stands in
  the callers: \<open>CloseConnection\<close> and \<open>OnErrorEvent\<close> on a valid cid whose slot is empty
  leave the slot table, the timeout index and the free-list unchanged, as they do on
  Windows.
\<close>

theorem evict_empty_slot:
  "(unat index < length (mgr s) \<and> fst (mgr s ! unat index) = None
      \<longrightarrow> DeleteConnection_win s index = Inr s)
   \<and> (\<forall>s'. DeleteConnection_win s index = Inr s' \<longrightarrow> DeleteConnection_win s' index = Inr s')
   \<and> (CheckConnectionId s cid \<noteq> InvalidIndex
        \<and> unat (CheckConnectionId s cid) < length (mgr s)
        \<and> fst (mgr s ! unat (CheckConnectionId s cid)) = None
      \<longrightarrow> CloseConnection_linux s cid = Inr (True, s) \<and> OnErrorEvent_linux s cid = Inr s
        \<and> CloseConnection_win s cid = Inr (True, s) \<and> OnErrorEvent_win s cid = Inr s)"
proof (intro conjI impI allI)
  fix s'
  assume "DeleteConnection_win s index = Inr s'"
  from DeleteConnection_win_leaves_empty [OF this]
  show "DeleteConnection_win s' index = Inr s'"
    by (simp add: DeleteConnection_win_empty)
qed (simp_all add: DeleteConnection_win_empty CloseConnection_linux_def OnErrorEvent_linux_def
    CloseConnection_win_def OnErrorEvent_win_def GetConnection_def Let_def)

lemma example_cid_valid:
  "CheckConnectionId example_two (example_cid 0) = 0"
  "CheckConnectionId example_evicted (example_cid 0) = 0"
  by (simp_all add: CheckConnectionId_def example_cid_def GetUserId_Build GetMagicNumber_Build
      Build_not_Invalid InvalidIndex_def example_two_def example_evicted_def example_options_def
      word_le_nat_alt)

theorem evict_empty_slot_witness:
  "DeleteConnection_win example_two 0 = Inr example_evicted
   \<and> DeleteConnection_win example_evicted 0 = Inr example_evicted
   \<and> CloseConnection_linux example_evicted (example_cid 0) = Inr (True, example_evicted)
   \<and> OnErrorEvent_linux example_evicted (example_cid 0) = Inr example_evicted
   \<and> CloseConnection_win example_evicted (example_cid 0) = Inr (True, example_evicted)
   \<and> OnErrorEvent_win example_evicted (example_cid 0) = Inr example_evicted"
proof -
  have first: "DeleteConnection_win example_two 0 = Inr example_evicted"
    by (simp add: DeleteConnection_win_def example_evicted_def example_two_def mm_erase_def
        mm_deref_def)
  have valid: "CheckConnectionId example_evicted (example_cid 0) \<noteq> InvalidIndex"
    by (simp add: example_cid_valid InvalidIndex_def)
  have inside: "unat (CheckConnectionId example_evicted (example_cid 0))
      < length (mgr example_evicted)"
    by (simp add: example_cid_valid) (simp add: example_evicted_def example_two_def)
  have empty: "fst (mgr example_evicted ! unat (CheckConnectionId example_evicted (example_cid 0)))
      = None"
    by (simp add: example_cid_valid) (simp add: example_evicted_def example_two_def)
  have second: "DeleteConnection_win example_evicted 0 = Inr example_evicted"
    using evict_empty_slot [of 0 example_two "example_cid 0"] first by blast
  have rest: "CloseConnection_linux example_evicted (example_cid 0) = Inr (True, example_evicted)
     \<and> OnErrorEvent_linux example_evicted (example_cid 0) = Inr example_evicted
     \<and> CloseConnection_win example_evicted (example_cid 0) = Inr (True, example_evicted)
     \<and> OnErrorEvent_win example_evicted (example_cid 0) = Inr example_evicted"
    using evict_empty_slot [of 0 example_evicted "example_cid 0"] valid inside empty by blast
  from first second rest show ?thesis by blast
qed

section \<open>I/O events on an empty slot\<close>

text \<open>
  On Windows the handlers return at once when the slot is empty; on Linux they call
  through the null pointer of the slot.
\<close>

lemma io_event_win_empty:
  assumes "CheckConnectionId s cid \<noteq> InvalidIndex"
    and "unat (CheckConnectionId s cid) < length (mgr s)"
    and "fst (mgr s ! unat (CheckConnectionId s cid)) = None"
  shows "OnRecvEvent_win s cid r now = Inr s" and "OnSendEvent_win s cid r now = Inr s"
  using assms by (simp_all add: OnRecvEvent_win_def OnSendEvent_win_def GetConnection_def Let_def)

lemma io_event_linux_empty:
  assumes "CheckConnectionId s cid \<noteq> InvalidIndex"
    and "unat (CheckConnectionId s cid) < length (mgr s)"
    and "fst (mgr s ! unat (CheckConnectionId s cid)) = None"
  shows "OnRecvEvent_linux s cid r now = Inl Null_deref"
    and "OnSendEvent_linux s cid r now = Inl Null_deref"
  using assms by (simp_all add: OnRecvEvent_linux_def OnSendEvent_linux_def Let_def)

text \<open>The example after \<open>CloseConnection\<close> of the first client.\<close>

definition example_closed :: TcpServer where
  "example_closed = emit (Conn_Shutdown (example_cid 0) False) example_two
      \<lparr>mgr := (mgr example_two)[0 := (None, End)],
       timeout_record_list := [TimeoutEntry (example_now + 70) 1 1],
       free_index_list := map of_nat [2..<100] @ [0]\<rparr>"

text \<open>
  C10. The claim is that \<open>OnRecvEvent\<close> and \<open>OnSendEvent\<close> are no-ops for a cid that
  passes validation and whose slot holds no live connection, for example after a
  racing close. On Linux they are not: after \<open>CloseConnection\<close> of the first client its
  cid still passes validation, slot 0 is empty, and both handlers dereference the null
  connection pointer of the slot.
\<close>

theorem event_after_close_faults:
  "CloseConnection_linux example_two (example_cid 0) = Inr (True, example_closed)
   \<and> CheckConnectionId example_closed (example_cid 0) = 0
   \<and> fst (mgr example_closed ! 0) = None
   \<and> OnRecvEvent_linux example_closed (example_cid 0) True (example_now + 20) = Inl Null_deref
   \<and> OnSendEvent_linux example_closed (example_cid 0) True (example_now + 20) = Inl Null_deref"
proof -
  have valid: "CheckConnectionId example_closed (example_cid 0) = 0"
    by (simp add: CheckConnectionId_def example_cid_def GetUserId_Build GetMagicNumber_Build
      Build_not_Invalid InvalidIndex_def example_two_def example_closed_def example_options_def
      word_le_nat_alt)
  have close: "CloseConnection_linux example_two (example_cid 0) = Inr (True, example_closed)"
    by (simp add: CloseConnection_linux_def example_cid_valid InvalidIndex_def)
      (simp add: DeleteConnection_linux_def example_closed_def example_two_def mm_erase_def
        mm_deref_def emit_def)
  have empty: "fst (mgr example_closed ! 0) = None"
    by (simp add: example_closed_def example_two_def)
  show ?thesis
    using valid close empty
    by (simp add: OnRecvEvent_linux_def OnSendEvent_linux_def InvalidIndex_def)
      (simp add: example_closed_def example_two_def)
qed

section \<open>Send\<close>

text \<open>
  \<open>Send\<close> returns false and leaves the state unchanged when the cid fails validation, and
  when the validated index is inside the slot table and its slot is empty.
\<close>

lemma Send_invalid_or_empty:
  "CheckConnectionId s cid = InvalidIndex \<Longrightarrow> Send_linux s cid r = Inr (False, s)"
  "CheckConnectionId s cid \<noteq> InvalidIndex \<Longrightarrow> unat (CheckConnectionId s cid) < length (mgr s)
     \<Longrightarrow> fst (mgr s ! unat (CheckConnectionId s cid)) = None
     \<Longrightarrow> Send_linux s cid r = Inr (False, s)"
  "CheckConnectionId s cid = InvalidIndex \<Longrightarrow> Send_win s cid r = Inr (False, s)"
  "CheckConnectionId s cid \<noteq> InvalidIndex \<Longrightarrow> unat (CheckConnectionId s cid) < length (mgr s)
     \<Longrightarrow> fst (mgr s ! unat (CheckConnectionId s cid)) = None
     \<Longrightarrow> Send_win s cid r = Inr (False, s)"
  by (simp_all add: Send_linux_def Send_win_def SendWithHeader_win_def GetConnection_def Let_def)

text \<open>A validated index at or beyond the length of the slot table is read out of range.\<close>

lemma Send_outside_table:
  assumes "CheckConnectionId s cid \<noteq> InvalidIndex"
    and "length (mgr s) \<le> unat (CheckConnectionId s cid)"
  shows "Send_linux s cid r = Inl Out_of_bounds" and "Send_win s cid r = Inl Out_of_bounds"
  using assms
  by (simp_all add: Send_linux_def Send_win_def SendWithHeader_win_def GetConnection_def Let_def)

text \<open>A server initialised with \<open>max_connections = 1000\<close>: its slot table has 100 slots.\<close>

definition example_big :: TcpServer where
  "example_big =
     snd (Init_linux (TcpServer_ctor example_options 0)
            \<lparr>max_connections = 1000, connection_timeout = 60\<rparr>
            RAPTOR_ERROR_NONE RAPTOR_ERROR_NONE RAPTOR_ERROR_NONE example_now)"

lemma example_big_fields:
  "magic_number example_big = 0x5F5E"
  "max_connections (options example_big) = 1000"
  "length (mgr example_big) = 100"
  by (simp_all add: example_big_def Init_linux_ok TcpServer_ctor_def example_magic resize_def
      RESERVED_CONNECTION_COUNT_def)

text \<open>
  C4. The claim is that \<open>Send\<close> returns false, leaving the state unchanged, whenever the
  cid fails validation or its slot is empty, and that it never faults for a cid whose
  index is below \<open>max_connections\<close>, also when the index is at or beyond the length of
  the slot table. On the code such a cid passes validation and \<open>Send\<close> then indexes the
  100-slot table at 500.
\<close>

theorem Send_beyond_table:
  "CheckConnectionId example_big (example_cid 500) = 500
   \<and> length (mgr example_big) = 100
   \<and> Send_linux example_big (example_cid 500) True = Inl Out_of_bounds"
proof -
  have valid: "CheckConnectionId example_big (example_cid 500) = 500"
    by (simp add: CheckConnectionId_def example_cid_def GetUserId_Build GetMagicNumber_Build
      Build_not_Invalid InvalidIndex_def example_big_fields word_le_nat_alt)
  show ?thesis
    by (simp add: valid Send_linux_def InvalidIndex_def example_big_fields)
qed

section \<open>The first receive of an accepted connection\<close>

lemma OnNewConnection_win_free:
  assumes "free_index_list s = index # rest" and "unat index < length (mgr s)"
    and "rs_thread s" and "in_time_t (now + connection_timeout (options s))"
  shows "OnNewConnection_win s sock listen_port now conn_AsyncRecv =
     (let cid = BuildConnectionId (magic_number s) (word_of_int listen_port) index;
          s1 = s\<lparr>trace := trace s @
                 [Conn_Init cid sock, Conn_SetProtocol cid, Iocp_Add sock cid,
                  Conn_AsyncRecv cid]\<rparr>
      in if conn_AsyncRecv then
           Inr (s1\<lparr>free_index_list := rest @ [index],
                   trace := trace s1 @ [Conn_Shutdown cid True]\<rparr>)
         else
           Inr (s1\<lparr>free_index_list := rest,
                   timeout_record_list :=
                     mm_insert
                       (TimeoutEntry (now + connection_timeout (options s)) index (next_node s))
                       (timeout_record_list s),
                   next_node := Suc (next_node s),
                   mgr := (mgr s)[unat index := (Some (Connection cid sock), At (next_node s))]\<rparr>))"
  using assms by (simp add: OnNewConnection_win_def Let_def timeout_insert_def emit_def)

text \<open>
  C2. The claim is that the slot is populated and a timeout entry inserted when posting
  the first receive succeeds, and that the index goes back to the free-list and the
  socket is shut down when it fails. On Windows the code takes the two branches the
  other way round: when \<^verbatim>\<open>conn->AsyncRecv()\<close> returns true the connection is shut down and
  the index pushed back, slot and timeout index untouched; when it returns false the
  slot is populated and the timeout entry inserted.
\<close>

theorem first_receive_branches_swapped:
  "OnNewConnection_win example_win 11 80 example_now True =
     Inr (example_win
           \<lparr>free_index_list := map of_nat [1..<100] @ [0],
             trace := trace example_win @
               [Conn_Init (example_cid 0) 11, Conn_SetProtocol (example_cid 0),
                Iocp_Add 11 (example_cid 0), Conn_AsyncRecv (example_cid 0),
                Conn_Shutdown (example_cid 0) True]\<rparr>)
   \<and> OnNewConnection_win example_win 11 80 example_now False =
     Inr (example_win
           \<lparr>free_index_list := map of_nat [1..<100],
             trace := trace example_win @
               [Conn_Init (example_cid 0) 11, Conn_SetProtocol (example_cid 0),
                Iocp_Add 11 (example_cid 0), Conn_AsyncRecv (example_cid 0)],
             timeout_record_list := [TimeoutEntry (example_now + 60) 0 0],
             next_node := 1,
             mgr := (replicate 100 (None, Singular))
                      [0 := (Some (Connection (example_cid 0) 11), At 0)]\<rparr>)"
proof -
  have free: "free_index_list example_win = 0 # map of_nat [1..<100]"
    by (simp add: example_win_eq upt_map_Cons)
  have inside: "unat (0 :: 32 word) < length (mgr example_win)"
    and rs: "rs_thread example_win"
    by (simp_all add: example_win_eq)
  have range: "in_time_t (example_now + connection_timeout (options example_win))"
    by (simp add: example_win_eq example_options_def example_now_def in_time_t_def)
  show ?thesis
    by (simp add: OnNewConnection_win_free [OF free inside rs range] Let_def)
      (simp add: example_win_eq example_cid_def example_options_def)
qed

section \<open>The magic across a restart\<close>

lemma magic_eq_iff:
  "((word_of_int (drop_bit 16 n1 AND 0xffff) :: 16 word)
      = word_of_int (drop_bit 16 n2 AND 0xffff))
     = ((n1 div 65536) mod 65536 = (n2 div 65536) mod 65536)"
proof -
  have m: "(0xffff :: int) = mask 16"
    by (simp add: mask_eq_exp_minus_1)
  show ?thesis
    unfolding m
    by (simp add: word_of_int_eq_iff take_bit_eq_mod drop_bit_eq_div flip: take_bit_eq_mask)
qed

lemma Init_win_magic:
  "shutdown s \<Longrightarrow>
   magic_number (snd (Init_win s opts RAPTOR_ERROR_NONE RAPTOR_ERROR_NONE n))
     = word_of_int (drop_bit 16 n AND 0xffff)"
  by (simp add: Init_win_def Let_def emit_def)

text \<open>A successful \<open>Init\<close> at time \<open>n\<close> on a server that is shut down.\<close>

definition restart :: "TcpServer \<Rightarrow> RaptorOptions \<Rightarrow> time_t \<Rightarrow> TcpServer" where
  "restart s opts n =
     snd (Init_linux s opts RAPTOR_ERROR_NONE RAPTOR_ERROR_NONE RAPTOR_ERROR_NONE n)"

text \<open>
  C9 as stated fails: the example server, initialised at time 1600000000, is shut down
  and initialised again one second later. Both runs have the magic \<open>0x5F5E\<close>, and a cid
  built against the first run's magic passes the validation of the second run. The
  two magics are equal for certain, not with probability at most \<open>2^-16\<close>.
\<close>

theorem same_magic_after_restart:
  "Shutdown_linux example_server = Inr example_stopped
   \<and> last_timeout_time example_server = 1600000000
   \<and> last_timeout_time (restart example_stopped example_options 1600000001) = 1600000001
   \<and> magic_number (restart example_stopped example_options 1600000001)
       = magic_number example_server
   \<and> CheckConnectionId (restart example_stopped example_options 1600000001)
        (BuildConnectionId (magic_number example_server) 80 0) = 0
   \<and> CheckConnectionId (restart example_stopped example_options 1600000001)
        (BuildConnectionId (magic_number example_server) 80 0) \<noteq> InvalidIndex"
  by (simp add: example_stopped_reached)
   (simp add: restart_def Init_linux_ok example_stopped_def example_server_eq example_now_def
      CheckConnectionId_def GetMagicNumber_Build GetUserId_Build Build_not_Invalid
      InvalidIndex_def example_options_def word_le_nat_alt)

text \<open>
  C9, amended. The magic is set at \<open>Init\<close> from \<open>(time_now >> 16) & 0xFFFF\<close>. Two runs
  have the same magic exactly when bits 16 to 31 of their init times agree. When the
  magics differ, every cid built against the first run's magic is rejected by the
  second run's validator; when they agree, such a cid passes if its index is below the
  second run's \<open>max_connections\<close>.
\<close>

theorem magic_across_restart:
  "shutdown s1 \<and> shutdown s2 \<longrightarrow>
     magic_number (restart s1 o1 n1) = word_of_int (drop_bit 16 n1 AND 0xffff)
   \<and> (magic_number (restart s1 o1 n1) = magic_number (restart s2 o2 n2))
       = ((n1 div 65536) mod 65536 = (n2 div 65536) mod 65536)
   \<and> (magic_number (restart s1 o1 n1) \<noteq> magic_number (restart s2 o2 n2) \<longrightarrow>
        CheckConnectionId (restart s2 o2 n2)
          (BuildConnectionId (magic_number (restart s1 o1 n1)) p i) = InvalidIndex)
   \<and> (magic_number (restart s1 o1 n1) = magic_number (restart s2 o2 n2)
        \<and> i < max_connections o2 \<longrightarrow>
        CheckConnectionId (restart s2 o2 n2)
          (BuildConnectionId (magic_number (restart s1 o1 n1)) p i) = i)"
proof (intro impI, elim conjE)
  assume s: "shutdown s1" "shutdown s2"
  have ne: "i < max_connections o2 \<Longrightarrow> i \<noteq> - 1"
    using below_cap_not_InvalidIndex [of "max_connections o2" i]
    by (simp add: InvalidIndex_def not_le)
  show "magic_number (restart s1 o1 n1) = word_of_int (drop_bit 16 n1 AND 0xffff)
   \<and> (magic_number (restart s1 o1 n1) = magic_number (restart s2 o2 n2))
       = ((n1 div 65536) mod 65536 = (n2 div 65536) mod 65536)
   \<and> (magic_number (restart s1 o1 n1) \<noteq> magic_number (restart s2 o2 n2) \<longrightarrow>
        CheckConnectionId (restart s2 o2 n2)
          (BuildConnectionId (magic_number (restart s1 o1 n1)) p i) = InvalidIndex)
   \<and> (magic_number (restart s1 o1 n1) = magic_number (restart s2 o2 n2)
        \<and> i < max_connections o2 \<longrightarrow>
        CheckConnectionId (restart s2 o2 n2)
          (BuildConnectionId (magic_number (restart s1 o1 n1)) p i) = i)"
    using s ne
    by (auto simp: restart_def Init_linux_ok magic_eq_iff CheckConnectionId_def Let_def
        GetMagicNumber_Build GetUserId_Build Build_not_Invalid not_le)
qed

theorem magic_across_restart_witness:
  "magic_number (restart (TcpServer_ctor example_options 0) example_options 1600000000)
       = 0x5F5E
   \<and> magic_number (restart example_stopped example_options 1600065536) = 0x5F5F
   \<and> CheckConnectionId (restart example_stopped example_options 1600065536)
        (BuildConnectionId
           (magic_number (restart (TcpServer_ctor example_options 0) example_options 1600000000))
           80 0) = InvalidIndex
   \<and> CheckConnectionId (restart example_stopped example_options 1600000001)
        (BuildConnectionId
           (magic_number (restart (TcpServer_ctor example_options 0) example_options 1600000000))
           80 0) = 0"
proof -
  let ?a = "restart (TcpServer_ctor example_options 0) example_options 1600000000"
  let ?b = "restart example_stopped example_options 1600065536"
  let ?c = "restart example_stopped example_options 1600000001"
  have down: "shutdown (TcpServer_ctor example_options 0) \<and> shutdown example_stopped"
    by (simp add: TcpServer_ctor_def example_stopped_def)
  have m1: "(word_of_int (drop_bit 16 1600000000 AND 0xffff) :: 16 word) = 0x5F5E"
    and m2: "(word_of_int (drop_bit 16 1600065536 AND 0xffff) :: 16 word) = 0x5F5F"
    by simp_all
  note ab = magic_across_restart [of "TcpServer_ctor example_options 0" example_stopped
      example_options 1600000000 example_options 1600065536 80 0]
  note ba = magic_across_restart [of example_stopped "TcpServer_ctor example_options 0"
      example_options 1600065536 example_options 1600000000 80 0]
  note ac = magic_across_restart [of "TcpServer_ctor example_options 0" example_stopped
      example_options 1600000000 example_options 1600000001 80 0]
  from ab down have "magic_number ?a = word_of_int (drop_bit 16 1600000000 AND 0xffff)"
    by blast
  then have a: "magic_number ?a = 0x5F5E"
    by (simp only: m1)
  from ba down have "magic_number ?b = word_of_int (drop_bit 16 1600065536 AND 0xffff)"
    by blast
  then have b: "magic_number ?b = 0x5F5F"
    by (simp only: m2)
  have "magic_number ?a \<noteq> magic_number ?b"
    by (simp add: a b)
  with ab down
  have rejected: "CheckConnectionId ?b (BuildConnectionId (magic_number ?a) 80 0) = InvalidIndex"
    by blast
  have window: "(1600000000 :: int) div 65536 mod 65536 = 1600000001 div 65536 mod 65536"
    by simp
  with ac down have same: "magic_number ?a = magic_number ?c"
    by blast
  have "(0 :: 32 word) < max_connections example_options"
    by (simp add: example_options_def)
  with ac down same
  have accepted: "CheckConnectionId ?c (BuildConnectionId (magic_number ?a) 80 0) = 0"
    by blast
  from a b rejected accepted show ?thesis by blast
qed

section \<open>Correctness of the timeout sweep\<close>

text \<open>
  The state the sweep relies on (invariants I2 and I3 of the slot table): the timeout
  index is ordered by deadline, its nodes are distinct, and every entry names a slot
  inside the table that holds a live connection and stores the iterator of that entry.
\<close>

definition wf_index :: "TcpServer \<Rightarrow> bool" where
  "wf_index s \<longleftrightarrow>
     sorted (map e_key (timeout_record_list s))
   \<and> distinct (map e_node (timeout_record_list s))
   \<and> list_all
        (\<lambda>e. unat (e_val e) < length (mgr s)
           \<and> fst (mgr s ! unat (e_val e)) \<noteq> None
           \<and> snd (mgr s ! unat (e_val e)) = At (e_node e))
        (timeout_record_list s)"

text \<open>
  The result of a sweep in closed form, used to follow the loop: the entries it visits
  are the longest prefix of the index with deadline at most \<open>current\<close>.
\<close>

definition evict_slots :: "TimeoutEntry list \<Rightarrow> (Connection option \<times> tm_iter) list
    \<Rightarrow> (Connection option \<times> tm_iter) list" where
  "evict_slots es m = fold (\<lambda>e m. m[unat (e_val e) := (None, End)]) es m"

definition shutdown_events :: "(Connection option \<times> tm_iter) list \<Rightarrow> TimeoutEntry list
    \<Rightarrow> event list" where
  "shutdown_events m es =
     map (\<lambda>e. Conn_Shutdown (conn_cid (the (fst (m ! unat (e_val e))))) True) es"

definition swept :: "TcpServer \<Rightarrow> time_t \<Rightarrow> TcpServer" where
  "swept s current =
     (let hit = takeWhile (\<lambda>e. e_key e \<le> current) (timeout_record_list s)
      in s\<lparr>mgr := evict_slots hit (mgr s),
           timeout_record_list := dropWhile (\<lambda>e. e_key e \<le> current) (timeout_record_list s),
           free_index_list := free_index_list s @ map e_val hit,
           trace := trace s @ shutdown_events (mgr s) hit\<rparr>)"

lemma sweep_End: "sweep s current End = Inr s"
  by (simp add: sweep.simps)

lemma sweep_stop:
  "timeout_record_list s = e # es \<Longrightarrow> current < e_key e
     \<Longrightarrow> sweep s current (At (e_node e)) = Inr s"
  by (subst sweep.simps) (simp add: mm_deref_def)

text \<open>One round of the loop on the first entry of the index.\<close>

definition evict_head :: "TcpServer \<Rightarrow> TimeoutEntry \<Rightarrow> TimeoutEntry list \<Rightarrow> TcpServer" where
  "evict_head s e es =
     s\<lparr>trace := trace s @ [Conn_Shutdown (conn_cid (the (fst (mgr s ! unat (e_val e))))) True],
       mgr := (mgr s)[unat (e_val e) := (None, End)],
       timeout_record_list := es,
       free_index_list := free_index_list s @ [e_val e]\<rparr>"

lemma sweep_head:
  assumes tl: "timeout_record_list s = e # es" and wf: "wf_index s"
    and hit: "e_key e \<le> current"
  shows "sweep s current (At (e_node e)) = sweep (evict_head s e es) current (mm_begin es)"
proof -
  from wf tl have inside: "unat (e_val e) < length (mgr s)"
    and live: "fst (mgr s ! unat (e_val e)) \<noteq> None"
    and it: "snd (mgr s ! unat (e_val e)) = At (e_node e)"
    and fresh: "e_node e \<notin> e_node ` set es"
    by (simp_all add: wf_index_def)
  from live obtain c where c: "fst (mgr s ! unat (e_val e)) = Some c"
    by auto
  from fresh have rest: "filter (\<lambda>y. e_node y \<noteq> e_node e) es = es"
    by (auto simp: filter_id_conv image_iff)
  have del: "DeleteConnection_linux (emit (Conn_Shutdown (conn_cid c) True) s) (e_val e)
      = Inr (evict_head s e es)"
    using inside it tl rest c
    by (simp add: DeleteConnection_linux_def mm_erase_def mm_deref_def evict_head_def emit_def)
  show ?thesis
    using tl hit inside c del
    by (subst sweep.simps) (simp add: mm_deref_def Let_def)
qed

lemma wf_index_other_slot:
  assumes tl: "timeout_record_list s = e # es" and wf: "wf_index s" and y: "y \<in> set es"
  shows "unat (e_val y) \<noteq> unat (e_val e)"
proof
  assume same: "unat (e_val y) = unat (e_val e)"
  from wf tl y have "snd (mgr s ! unat (e_val e)) = At (e_node e)"
    and "snd (mgr s ! unat (e_val y)) = At (e_node y)"
    and fresh: "e_node e \<notin> e_node ` set es"
    by (auto simp: wf_index_def list_all_iff)
  with same have "e_node y = e_node e" by simp
  with y fresh show False by (metis image_eqI)
qed

lemma other_slot_kept:
  assumes "timeout_record_list s = e # es" and "wf_index s" and "y \<in> set es"
  shows "(mgr s)[unat (e_val e) := v] ! unat (e_val y) = mgr s ! unat (e_val y)"
  using wf_index_other_slot [OF assms] by simp

lemma wf_index_evict_head:
  assumes tl: "timeout_record_list s = e # es" and wf: "wf_index s"
  shows "wf_index (evict_head s e es)"
proof -
  from wf tl have all: "\<forall>y\<in>set es. unat (e_val y) < length (mgr s)
           \<and> fst (mgr s ! unat (e_val y)) \<noteq> None
           \<and> snd (mgr s ! unat (e_val y)) = At (e_node y)"
    and sorted: "sorted (map e_key es)" and distinct: "distinct (map e_node es)"
    by (auto simp: wf_index_def list_all_iff)
  from all have "\<forall>y\<in>set es. unat (e_val y) < length ((mgr s)[unat (e_val e) := (None, End)])
           \<and> fst ((mgr s)[unat (e_val e) := (None, End)] ! unat (e_val y)) \<noteq> None
           \<and> snd ((mgr s)[unat (e_val e) := (None, End)] ! unat (e_val y)) = At (e_node y)"
    by (simp add: other_slot_kept [OF tl wf])
  with sorted distinct show ?thesis
    by (simp add: wf_index_def evict_head_def list_all_iff)
qed

lemma shutdown_events_simps [simp]:
  "shutdown_events m [] = []"
  "shutdown_events m (e # es) =
     Conn_Shutdown (conn_cid (the (fst (m ! unat (e_val e))))) True # shutdown_events m es"
  by (simp_all add: shutdown_events_def)

lemma evict_slots_simps [simp]:
  "evict_slots [] m = m"
  "evict_slots (e # es) m = evict_slots es (m[unat (e_val e) := (None, End)])"
  by (simp_all add: evict_slots_def)

lemma swept_evict_head:
  assumes tl: "timeout_record_list s = e # es" and wf: "wf_index s"
    and hit: "e_key e \<le> current"
  shows "swept (evict_head s e es) current = swept s current"
proof -
  let ?hit = "takeWhile (\<lambda>e. e_key e \<le> current) es"
  have "shutdown_events ((mgr s)[unat (e_val e) := (None, End)]) ?hit
      = shutdown_events (mgr s) ?hit"
    unfolding shutdown_events_def
  proof (rule map_cong [OF refl])
    fix y assume "y \<in> set ?hit"
    then have "y \<in> set es" by (rule set_takeWhileD [THEN conjunct1])
    then show "Conn_Shutdown (conn_cid (the (fst ((mgr s)[unat (e_val e) := (None, End)] ! unat (e_val y))))) True
        = Conn_Shutdown (conn_cid (the (fst (mgr s ! unat (e_val y))))) True"
      by (simp add: other_slot_kept [OF tl wf])
  qed
  with tl hit show ?thesis
    by (simp add: swept_def evict_head_def Let_def)
qed

lemma swept_no_entries:
  "timeout_record_list s = [] \<Longrightarrow> swept s current = s"
  by (simp add: swept_def)

lemma swept_none_expired:
  "timeout_record_list s = e # es \<Longrightarrow> \<not> e_key e \<le> current \<Longrightarrow> swept s current = s"
  by (simp add: swept_def)

lemma sweep_swept:
  "wf_index s \<Longrightarrow>
     sweep s current (mm_begin (timeout_record_list s)) = Inr (swept s current)
     \<and> wf_index (swept s current)"
proof (induction "timeout_record_list s" arbitrary: s)
  case Nil
  then show ?case
    by (simp add: mm_begin_def sweep_End swept_no_entries)
next
  case (Cons e es)
  from Cons.hyps(2) have tl: "timeout_record_list s = e # es" by simp
  show ?case
  proof (cases "e_key e \<le> current")
    case False
    with tl Cons.prems show ?thesis
      by (simp add: mm_begin_def sweep_stop swept_none_expired)
  next
    case True
    let ?s = "evict_head s e es"
    have tl': "es = timeout_record_list ?s"
      by (simp add: evict_head_def)
    have wf': "wf_index ?s"
      using tl Cons.prems by (rule wf_index_evict_head)
    have same: "swept ?s current = swept s current"
      using tl Cons.prems True by (rule swept_evict_head)
    have "sweep s current (mm_begin (timeout_record_list s)) = sweep ?s current (mm_begin es)"
      using sweep_head [OF tl Cons.prems True] tl by (simp add: mm_begin_def)
    also have "\<dots> = Inr (swept ?s current)"
      using Cons.hyps(1) [OF tl' wf'] by (simp add: evict_head_def)
    finally show ?thesis
      using Cons.hyps(1) [OF tl' wf'] same by simp
  qed
qed

lemma takeWhile_expired:
  "sorted (map e_key xs) \<Longrightarrow>
     takeWhile (\<lambda>e. e_key e \<le> c) xs = filter (\<lambda>e. e_key e \<le> c) xs"
proof (induction xs)
  case Nil
  show ?case by simp
next
  case (Cons x xs)
  show ?case
  proof (cases "e_key x \<le> c")
    case True
    with Cons show ?thesis by simp
  next
    case False
    with Cons.prems have "\<forall>y\<in>set xs. \<not> e_key y \<le> c" by auto
    then have "filter (\<lambda>e. e_key e \<le> c) xs = []" by (simp add: filter_empty_conv)
    with False show ?thesis by simp
  qed
qed

lemma dropWhile_expired:
  "sorted (map e_key xs) \<Longrightarrow>
     dropWhile (\<lambda>e. e_key e \<le> c) xs = filter (\<lambda>e. c < e_key e) xs"
proof (induction xs)
  case Nil
  show ?case by simp
next
  case (Cons x xs)
  show ?case
  proof (cases "e_key x \<le> c")
    case True
    with Cons show ?thesis by simp
  next
    case False
    with Cons.prems have "\<forall>y\<in>set xs. c < e_key y" by auto
    then have "filter (\<lambda>e. c < e_key e) xs = xs" by (simp add: filter_id_conv)
    with False show ?thesis by simp
  qed
qed

lemma length_evict_slots [simp]: "length (evict_slots es m) = length m"
  by (induction es arbitrary: m) simp_all

lemma nth_evict_slots:
  "i < length m \<Longrightarrow>
     evict_slots es m ! i = (if \<exists>e\<in>set es. unat (e_val e) = i then (None, End) else m ! i)"
  by (induction es arbitrary: m) (auto simp: nth_list_update)

lemma wf_index_same_slot:
  assumes wf: "wf_index s" and a: "a \<in> set (timeout_record_list s)"
    and b: "b \<in> set (timeout_record_list s)" and same: "unat (e_val a) = unat (e_val b)"
  shows "a = b"
proof -
  from wf a b have "snd (mgr s ! unat (e_val a)) = At (e_node a)"
    and "snd (mgr s ! unat (e_val b)) = At (e_node b)"
    and d: "distinct (map e_node (timeout_record_list s))"
    by (auto simp: wf_index_def list_all_iff)
  with same have "e_node a = e_node b" by simp
  with d a b show ?thesis by (simp add: distinct_map inj_on_def)
qed

text \<open>
  The rate limit subtracts the time of the last sweep from the current time. Where that
  64-bit difference overflows, no sweep is specified.
\<close>

lemma OnCheckingEvent_overflow:
  assumes "\<not> in_time_t (current - last_timeout_time s)"
  shows "OnCheckingEvent_linux s current = Inl Signed_overflow"
    and "OnCheckingEvent_win s current = Inl Signed_overflow"
  using assms by (simp_all add: OnCheckingEvent_linux_def OnCheckingEvent_win_def)

text \<open>
  C7. Past the rate limit (1 second on Linux, 3 seconds on Windows), for 64-bit times
  whose difference does not overflow, a timeout sweep on a well-formed state returns,
  and it evicts exactly the slots whose deadline is at most \<open>current\<close>: these slots are
  emptied, their entries leave the timeout index, and their indices go to the back of
  the free-list in ascending order of deadline, each after its connection was shut
  down. Entries with a later deadline stay in the index and their slots keep their
  connection.
\<close>

theorem timeout_sweep:
  assumes wf: "wf_index s" and due: "1 \<le> current - last_timeout_time s"
    and times: "in_time_t current" "in_time_t (last_timeout_time s)"
    and range: "in_time_t (current - last_timeout_time s)"
  shows "\<exists>s'. OnCheckingEvent_linux s current = Inr s'
     \<and> (3 \<le> current - last_timeout_time s \<longrightarrow> OnCheckingEvent_win s current = Inr s')
     \<and> timeout_record_list s' = filter (\<lambda>e. current < e_key e) (timeout_record_list s)
     \<and> length (mgr s') = length (mgr s)
     \<and> (\<forall>i<length (mgr s). mgr s' ! i =
          (if \<exists>e\<in>set (timeout_record_list s). e_key e \<le> current \<and> unat (e_val e) = i
           then (None, End) else mgr s ! i))
     \<and> (\<forall>e\<in>set (timeout_record_list s). current < e_key e \<longrightarrow>
          e \<in> set (timeout_record_list s') \<and> mgr s' ! unat (e_val e) = mgr s ! unat (e_val e))
     \<and> free_index_list s' = free_index_list s
          @ map e_val (filter (\<lambda>e. e_key e \<le> current) (timeout_record_list s))
     \<and> sorted (map e_key (filter (\<lambda>e. e_key e \<le> current) (timeout_record_list s)))
     \<and> trace s' = trace s
          @ map (\<lambda>e. Conn_Shutdown (conn_cid (the (fst (mgr s ! unat (e_val e))))) True)
              (filter (\<lambda>e. e_key e \<le> current) (timeout_record_list s))
     \<and> wf_index s'"
proof -
  let ?s = "s\<lparr>last_timeout_time := current\<rparr>"
  let ?s' = "swept ?s current"
  let ?tl = "timeout_record_list s"
  have wf0: "wf_index ?s"
    using wf by (simp add: wf_index_def)
  from wf have srt: "sorted (map e_key ?tl)"
    by (simp add: wf_index_def)
  from sweep_swept [OF wf0, of current]
  have run: "sweep ?s current (mm_begin ?tl) = Inr ?s'" and wf': "wf_index ?s'"
    by simp_all
  have linux: "OnCheckingEvent_linux s current = Inr ?s'"
    using due range run by (simp add: OnCheckingEvent_linux_def Let_def)
  have win: "3 \<le> current - last_timeout_time s \<longrightarrow> OnCheckingEvent_win s current = Inr ?s'"
    using range run by (simp add: OnCheckingEvent_win_def Let_def)
  have tl': "timeout_record_list ?s' = filter (\<lambda>e. current < e_key e) ?tl"
    using srt by (simp add: swept_def Let_def dropWhile_expired)
  have len: "length (mgr ?s') = length (mgr s)"
    by (simp add: swept_def Let_def)
  have slots: "\<forall>i<length (mgr s). mgr ?s' ! i =
          (if \<exists>e\<in>set ?tl. e_key e \<le> current \<and> unat (e_val e) = i
           then (None, End) else mgr s ! i)"
    using srt by (auto simp: swept_def Let_def takeWhile_expired nth_evict_slots)
  have kept: "\<forall>e\<in>set ?tl. current < e_key e \<longrightarrow>
          e \<in> set (timeout_record_list ?s') \<and> mgr ?s' ! unat (e_val e) = mgr s ! unat (e_val e)"
  proof (intro ballI impI)
    fix e assume e: "e \<in> set ?tl" and late: "current < e_key e"
    from wf e have inside: "unat (e_val e) < length (mgr s)"
      by (auto simp: wf_index_def list_all_iff)
    have "\<not> (\<exists>a\<in>set ?tl. e_key a \<le> current \<and> unat (e_val a) = unat (e_val e))"
    proof
      assume "\<exists>a\<in>set ?tl. e_key a \<le> current \<and> unat (e_val a) = unat (e_val e)"
      then obtain a where a: "a \<in> set ?tl" "e_key a \<le> current"
        "unat (e_val a) = unat (e_val e)" by blast
      from wf_index_same_slot [OF wf a(1) e a(3)] a(2) late show False by simp
    qed
    with slots inside have "mgr ?s' ! unat (e_val e) = mgr s ! unat (e_val e)"
      by auto
    with tl' e late
    show "e \<in> set (timeout_record_list ?s') \<and> mgr ?s' ! unat (e_val e) = mgr s ! unat (e_val e)"
      by simp
  qed
  have free: "free_index_list ?s' = free_index_list s
          @ map e_val (filter (\<lambda>e. e_key e \<le> current) ?tl)"
    using srt by (simp add: swept_def Let_def takeWhile_expired)
  have order: "sorted (map e_key (filter (\<lambda>e. e_key e \<le> current) ?tl))"
    using srt by (simp add: sorted_map sorted_wrt_filter)
  have tr: "trace ?s' = trace s
          @ map (\<lambda>e. Conn_Shutdown (conn_cid (the (fst (mgr s ! unat (e_val e))))) True)
              (filter (\<lambda>e. e_key e \<le> current) ?tl)"
    using srt by (simp add: swept_def Let_def takeWhile_expired shutdown_events_def)
  from linux win tl' len slots kept free order tr wf' show ?thesis
    by blast
qed

lemma wf_index_example_two: "wf_index example_two"
  by (simp add: wf_index_def example_two_def)

theorem timeout_sweep_witness:
  "\<exists>s'. OnCheckingEvent_linux example_two (example_now + 65) = Inr s'
     \<and> OnCheckingEvent_win example_two (example_now + 65) = Inr s'
     \<and> timeout_record_list s' = [TimeoutEntry (example_now + 70) 1 1]
     \<and> mgr s' ! 0 = (None, End)
     \<and> mgr s' ! 1 = (Some (Connection (example_cid 1) 12), At 1)
     \<and> free_index_list s' = map of_nat [2..<100] @ [0]
     \<and> trace s' = trace example_two @ [Conn_Shutdown (example_cid 0) True]"
proof -
  have due: "1 \<le> example_now + 65 - last_timeout_time example_two"
    and due3: "3 \<le> example_now + 65 - last_timeout_time example_two"
    by (simp_all add: example_two_def)
  have times: "in_time_t (example_now + 65)" "in_time_t (last_timeout_time example_two)"
    and range: "in_time_t (example_now + 65 - last_timeout_time example_two)"
    by (simp_all add: example_two_def example_now_def in_time_t_def)
  from timeout_sweep [OF wf_index_example_two due times range] due3
  obtain s' where run: "OnCheckingEvent_linux example_two (example_now + 65) = Inr s'"
      "OnCheckingEvent_win example_two (example_now + 65) = Inr s'"
    and tl: "timeout_record_list s'
        = filter (\<lambda>e. example_now + 65 < e_key e) (timeout_record_list example_two)"
    and slots: "\<forall>i<length (mgr example_two). mgr s' ! i =
          (if \<exists>e\<in>set (timeout_record_list example_two).
                e_key e \<le> example_now + 65 \<and> unat (e_val e) = i
           then (None, End) else mgr example_two ! i)"
    and free: "free_index_list s' = free_index_list example_two
          @ map e_val (filter (\<lambda>e. e_key e \<le> example_now + 65)
              (timeout_record_list example_two))"
    and tr: "trace s' = trace example_two
          @ map (\<lambda>e. Conn_Shutdown
                  (conn_cid (the (fst (mgr example_two ! unat (e_val e))))) True)
              (filter (\<lambda>e. e_key e \<le> example_now + 65) (timeout_record_list example_two))"
    by blast
  have tl': "timeout_record_list s' = [TimeoutEntry (example_now + 70) 1 1]"
    using tl by (simp add: example_two_def)
  have s0: "mgr s' ! 0 = (None, End)"
    using slots [rule_format, of 0] by (simp add: example_two_def)
  have s1: "mgr s' ! 1 = (Some (Connection (example_cid 1) 12), At 1)"
    using slots [rule_format, of 1] by (simp add: example_two_def)
  have free': "free_index_list s' = map of_nat [2..<100] @ [0]"
    using free by (simp add: example_two_def)
  have tr': "trace s' = trace example_two @ [Conn_Shutdown (example_cid 0) True]"
    using tr by (simp add: example_two_def)
  from run tl' s0 s1 free' tr' show ?thesis by blast
qed

section \<open>The invariant of the slot table\<close>

text \<open>
  The hypothesis of the sweep is no accident of one state: together with three more
  facts it is an invariant of the Linux server. Every node number of the timeout index
  is below \<open>next_node\<close>, the free-list has no index twice, and every free index names an
  empty slot inside the table (invariants P2 and P3 of the slot table).
\<close>

definition slot_inv :: "TcpServer \<Rightarrow> bool" where
  "slot_inv s \<longleftrightarrow>
     wf_index s
   \<and> list_all (\<lambda>e. e_node e < next_node s) (timeout_record_list s)
   \<and> distinct (free_index_list s)
   \<and> list_all (\<lambda>i. unat i < length (mgr s) \<and> fst (mgr s ! unat i) = None)
        (free_index_list s)"

lemma set_mm_insert [simp]: "set (mm_insert e xs) = insert e (set xs)"
  by (induction xs) auto

lemma sorted_mm_insert:
  "sorted (map e_key xs) \<Longrightarrow> sorted (map e_key (mm_insert e xs))"
  by (induction xs) auto

lemma distinct_mm_insert:
  "distinct (map e_node xs) \<Longrightarrow> e_node e \<notin> e_node ` set xs
     \<Longrightarrow> distinct (map e_node (mm_insert e xs))"
  by (induction xs) auto

lemma unat_of_nat_small:
  "i < 4294967296 \<Longrightarrow> unat (of_nat i :: 32 word) = i"
  by (simp add: unat_of_nat)

lemma distinct_indices:
  assumes "b \<le> 4294967296"
  shows "distinct (map of_nat [a..<b] :: 32 word list)"
proof -
  have "inj_on (of_nat :: nat \<Rightarrow> 32 word) (set [a..<b])"
  proof (rule inj_onI)
    fix x y assume "x \<in> set [a..<b]" "y \<in> set [a..<b]"
      and eq: "(of_nat x :: 32 word) = of_nat y"
    with assms have "x < 4294967296" "y < 4294967296" by auto
    with eq show "x = y" by (metis unat_of_nat_small)
  qed
  then show ?thesis by (simp add: distinct_map)
qed

lemma slot_inv_Init_linux:
  assumes "shutdown s" and "mgr s = []" and "timeout_record_list s = []"
    and "free_index_list s = []"
  shows "slot_inv (snd (Init_linux s opts RAPTOR_ERROR_NONE RAPTOR_ERROR_NONE
      RAPTOR_ERROR_NONE n))"
  using assms distinct_indices [of 100 0]
  by (simp add: Init_linux_ok slot_inv_def wf_index_def resize_def RESERVED_CONNECTION_COUNT_def
      list_all_iff unat_of_nat_small)

lemma slot_inv_emit [simp]: "slot_inv (emit e s) = slot_inv s"
  by (simp add: slot_inv_def wf_index_def)

lemma slot_inv_trace [simp]: "slot_inv (s\<lparr>trace := t\<rparr>) = slot_inv s"
  by (simp add: slot_inv_def wf_index_def)

text \<open>A free slot is not the slot of a timeout entry.\<close>

lemma free_slot_not_indexed:
  assumes "slot_inv s" and "i \<in> set (free_index_list s)" and "e \<in> set (timeout_record_list s)"
  shows "unat (e_val e) \<noteq> unat i"
  using assms by (auto simp: slot_inv_def wf_index_def list_all_iff)

lemma slot_inv_accept:
  assumes inv: "slot_inv s" and free: "free_index_list s = index # rest"
  shows "slot_inv
     (s\<lparr>free_index_list := rest,
        timeout_record_list := mm_insert (TimeoutEntry d index (next_node s)) (timeout_record_list s),
        next_node := Suc (next_node s),
        mgr := (mgr s)[unat index := (Some c, At (next_node s))]\<rparr>)"
proof -
  let ?tl = "timeout_record_list s"
  from inv free have inside: "unat index < length (mgr s)"
    and srt: "sorted (map e_key ?tl)" and dst: "distinct (map e_node ?tl)"
    and below: "\<forall>e\<in>set ?tl. e_node e < next_node s"
    and drest: "distinct rest" and notin: "index \<notin> set rest"
    and entries: "\<forall>e\<in>set ?tl. unat (e_val e) < length (mgr s)
           \<and> fst (mgr s ! unat (e_val e)) \<noteq> None
           \<and> snd (mgr s ! unat (e_val e)) = At (e_node e)"
    and frees: "\<forall>i\<in>set rest. unat i < length (mgr s) \<and> fst (mgr s ! unat i) = None"
    by (auto simp: slot_inv_def wf_index_def list_all_iff)
  from below have fresh: "next_node s \<notin> e_node ` set ?tl"
    by auto
  have other: "unat index \<noteq> unat (e_val e)" if "e \<in> set ?tl" for e
    using free_slot_not_indexed [OF inv _ that, of index] free by simp
  have other_free: "unat index \<noteq> unat i" if "i \<in> set rest" for i
    using that notin by (metis word_unat_eq_iff)
  have e': "\<forall>e\<in>set ?tl. unat (e_val e) < length (mgr s)
           \<and> fst ((mgr s)[unat index := (Some c, At (next_node s))] ! unat (e_val e)) \<noteq> None
           \<and> snd ((mgr s)[unat index := (Some c, At (next_node s))] ! unat (e_val e))
               = At (e_node e)"
    using entries other by simp
  have f': "\<forall>i\<in>set rest. unat i < length (mgr s)
           \<and> fst ((mgr s)[unat index := (Some c, At (next_node s))] ! unat i) = None"
    using frees other_free by simp
  from inside srt dst fresh below drest e' f' show ?thesis
    by (simp add: slot_inv_def wf_index_def list_all_iff sorted_mm_insert distinct_mm_insert
        less_Suc_eq)
qed

text \<open>The growth of the table.\<close>

lemma seed_slots_eq:
  "seed_slots js s =
     s\<lparr>mgr := fold (\<lambda>i m. m[i := (None, End)]) js (mgr s),
       free_index_list := free_index_list s @ map of_nat js\<rparr>"
  by (induction js arbitrary: s) simp_all

lemma length_fold_update [simp]: "length (fold (\<lambda>i m. m[i := v]) js m) = length m"
  by (induction js arbitrary: m) simp_all

lemma nth_fold_update:
  "k < length m \<Longrightarrow> fold (\<lambda>i m. m[i := v]) js m ! k = (if k \<in> set js then v else m ! k)"
  by (induction js arbitrary: m) (auto simp: nth_list_update)

lemma grow_eq:
  assumes "length (mgr s) < unat (max_connections (options s))"
  shows "\<exists>expand\<ge>length (mgr s). expand \<le> unat (max_connections (options s))
     \<and> length (mgr (grow s)) = expand
     \<and> free_index_list (grow s) = free_index_list s @ map of_nat [length (mgr s)..<expand]
     \<and> (\<forall>k<length (mgr s). mgr (grow s) ! k = mgr s ! k)
     \<and> (\<forall>k. length (mgr s) \<le> k \<and> k < expand \<longrightarrow> mgr (grow s) ! k = (None, End))
     \<and> timeout_record_list (grow s) = timeout_record_list s
     \<and> next_node (grow s) = next_node s"
proof -
  let ?cnt = "length (mgr s)" and ?cap = "unat (max_connections (options s))"
  let ?expand = "if ?cnt * 2 < ?cap then ?cnt * 2 else ?cap"
  have ge: "?cnt \<le> ?expand" and le: "?expand \<le> ?cap"
    using assms by auto
  have g: "grow s = seed_slots [?cnt..<?expand] (s\<lparr>mgr := resize ?expand (mgr s)\<rparr>)"
    by (simp add: grow_def Let_def)
  have r: "resize ?expand (mgr s) = mgr s @ replicate (?expand - ?cnt) (None, Singular)"
    using ge by (simp add: resize_def)
  have len: "length (resize ?expand (mgr s)) = ?expand"
    using ge by (simp add: r)
  show ?thesis
  proof (intro exI [of _ ?expand] conjI allI impI)
    show "?cnt \<le> ?expand" by (rule ge)
    show "?expand \<le> ?cap" by (rule le)
    show "length (mgr (grow s)) = ?expand"
      by (simp only: g seed_slots_eq) (simp add: len)
    show "free_index_list (grow s) = free_index_list s @ map of_nat [?cnt..<?expand]"
      by (simp only: g seed_slots_eq) simp
    show "mgr (grow s) ! k = mgr s ! k" if "k < ?cnt" for k
    proof -
      from that ge have "k < length (resize ?expand (mgr s))" by (simp add: len)
      then have "mgr (grow s) ! k = resize ?expand (mgr s) ! k"
        using that by (simp only: g seed_slots_eq) (simp add: nth_fold_update)
      also have "\<dots> = mgr s ! k"
        using that by (simp add: r nth_append)
      finally show ?thesis .
    qed
    show "mgr (grow s) ! k = (None, End)" if "?cnt \<le> k \<and> k < ?expand" for k
    proof -
      from that have "k < length (resize ?expand (mgr s))" by (simp add: len)
      then show ?thesis
        using that by (simp only: g seed_slots_eq) (simp add: nth_fold_update)
    qed
    show "timeout_record_list (grow s) = timeout_record_list s"
      by (simp only: g seed_slots_eq) simp
    show "next_node (grow s) = next_node s"
      by (simp only: g seed_slots_eq) simp
  qed
qed

lemma slot_inv_grow:
  assumes inv: "slot_inv s" and empty: "free_index_list s = []"
    and room: "length (mgr s) < unat (max_connections (options s))"
  shows "slot_inv (grow s)"
proof -
  from grow_eq [OF room] obtain expand where ge: "length (mgr s) \<le> expand"
    and le: "expand \<le> unat (max_connections (options s))"
    and len: "length (mgr (grow s)) = expand"
    and free: "free_index_list (grow s) = free_index_list s @ map of_nat [length (mgr s)..<expand]"
    and old: "\<forall>k<length (mgr s). mgr (grow s) ! k = mgr s ! k"
    and new: "\<forall>k. length (mgr s) \<le> k \<and> k < expand \<longrightarrow> mgr (grow s) ! k = (None, End)"
    and tl: "timeout_record_list (grow s) = timeout_record_list s"
    and nn: "next_node (grow s) = next_node s"
    by blast
  have "unat (max_connections (options s)) < 4294967296"
    using unsigned_less [of "max_connections (options s)", where 'a = nat] by simp
  with le have small: "expand \<le> 4294967296" by simp
  have un: "unat (of_nat k :: 32 word) = k" if "k < expand" for k
    using that small by (simp add: unat_of_nat_small)
  from inv have wf: "wf_index s"
    and below: "list_all (\<lambda>e. e_node e < next_node s) (timeout_record_list s)"
    by (simp_all add: slot_inv_def)
  have wf': "wf_index (grow s)"
    using wf ge old by (auto simp: wf_index_def tl len list_all_iff)
  have frees: "list_all (\<lambda>i. unat i < length (mgr (grow s)) \<and> fst (mgr (grow s) ! unat i) = None)
        (free_index_list (grow s))"
    using new un by (auto simp: free empty len list_all_iff)
  from wf' below frees distinct_indices [OF small, of "length (mgr s)"] show ?thesis
    by (simp add: slot_inv_def tl nn free empty)
qed

lemma OnNewConnection_linux_grow:
  assumes "free_index_list s = []"
    and "length (mgr s) < unat (max_connections (options s))"
  shows "OnNewConnection_linux s sock listen_port now =
     (if free_index_list (grow s) = [] then Inl Empty_front
      else OnNewConnection_linux (grow s) sock listen_port now)"
  using assms by (simp add: OnNewConnection_linux_def)

lemma slot_inv_OnNewConnection_linux_free:
  assumes inv: "slot_inv s" and free: "free_index_list s = index # rest"
    and run: "OnNewConnection_linux s sock listen_port now = Inr s'"
  shows "slot_inv s'"
proof -
  from inv free have inside: "unat index < length (mgr s)"
    by (simp add: slot_inv_def)
  let ?cid = "BuildConnectionId (magic_number s) (word_of_int listen_port) index"
  let ?a = "s\<lparr>free_index_list := rest,
        timeout_record_list :=
          mm_insert (TimeoutEntry (now + connection_timeout (options s)) index (next_node s))
            (timeout_record_list s),
        next_node := Suc (next_node s),
        mgr := (mgr s)[unat index := (Some (Connection ?cid sock), At (next_node s))]\<rparr>"
  from run free have range: "in_time_t (now + connection_timeout (options s))"
    by (auto simp: OnNewConnection_linux_def Let_def split: if_splits)
  from run have "s' = ?a\<lparr>trace := trace s @ [Conn_SetProtocol ?cid, Conn_Init ?cid sock]\<rparr>"
    by (auto simp: OnNewConnection_linux_free [OF free inside range])
  with slot_inv_accept [OF inv free] show ?thesis
    by (simp only: slot_inv_trace)
qed

lemma slot_inv_OnNewConnection_linux:
  assumes inv: "slot_inv s" and run: "OnNewConnection_linux s sock listen_port now = Inr s'"
  shows "slot_inv s'"
proof (cases "free_index_list s")
  case (Cons index rest)
  from inv Cons run show ?thesis
    by (rule slot_inv_OnNewConnection_linux_free)
next
  case Nil
  show ?thesis
  proof (cases "unat (max_connections (options s)) \<le> length (mgr s)")
    case True
    with Nil run inv show ?thesis
      by (auto simp: OnNewConnection_linux_full)
  next
    case False
    then have room: "length (mgr s) < unat (max_connections (options s))"
      by simp
    from run OnNewConnection_linux_grow [OF Nil room]
    have ne: "free_index_list (grow s) \<noteq> []"
      and run': "OnNewConnection_linux (grow s) sock listen_port now = Inr s'"
      by (auto split: if_splits)
    from ne obtain index rest where "free_index_list (grow s) = index # rest"
      by (cases "free_index_list (grow s)") auto
    with slot_inv_grow [OF inv Nil room] run' show ?thesis
      by (auto intro: slot_inv_OnNewConnection_linux_free)
  qed
qed

text \<open>Deleting the connection of a live slot.\<close>

lemma slot_inv_DeleteConnection_linux:
  assumes inv: "slot_inv s" and live: "fst (mgr s ! unat index) \<noteq> None"
    and run: "DeleteConnection_linux s index = Inr s'"
  shows "slot_inv s'"
proof -
  let ?tl = "timeout_record_list s"
  from run obtain x where inside: "unat index < length (mgr s)"
    and x: "mm_deref (snd (mgr s ! unat index)) ?tl = Some x"
    and s': "s' = s\<lparr>mgr := (mgr s)[unat index := (None, End)],
         timeout_record_list := filter (\<lambda>y. e_node y \<noteq> e_node x) ?tl,
         free_index_list := free_index_list s @ [index]\<rparr>"
    by (auto simp: DeleteConnection_linux_def mm_erase_def split: if_splits option.splits)
  from x have it: "snd (mgr s ! unat index) = At (e_node x)"
    by (simp add: mm_deref_Some)
  from inv have srt: "sorted (map e_key ?tl)" and dst: "distinct (map e_node ?tl)"
    and below: "\<forall>e\<in>set ?tl. e_node e < next_node s"
    and dfree: "distinct (free_index_list s)"
    and entries: "\<forall>e\<in>set ?tl. unat (e_val e) < length (mgr s)
           \<and> fst (mgr s ! unat (e_val e)) \<noteq> None
           \<and> snd (mgr s ! unat (e_val e)) = At (e_node e)"
    and frees: "\<forall>i\<in>set (free_index_list s). unat i < length (mgr s) \<and> fst (mgr s ! unat i) = None"
    by (auto simp: slot_inv_def wf_index_def list_all_iff)
  have other: "unat index \<noteq> unat (e_val e)" if "e \<in> set ?tl" "e_node e \<noteq> e_node x" for e
    using that entries it by auto
  have notfree: "index \<notin> set (free_index_list s)"
    using frees live by auto
  have other_free: "unat index \<noteq> unat i" if "i \<in> set (free_index_list s)" for i
    using that notfree by (metis word_unat_eq_iff)
  have e': "\<forall>e\<in>set (filter (\<lambda>y. e_node y \<noteq> e_node x) ?tl).
       unat (e_val e) < length (mgr s)
       \<and> fst ((mgr s)[unat index := (None, End)] ! unat (e_val e)) \<noteq> None
       \<and> snd ((mgr s)[unat index := (None, End)] ! unat (e_val e)) = At (e_node e)"
    using entries other by simp
  have f': "\<forall>i\<in>set (free_index_list s). unat i < length (mgr s)
       \<and> fst ((mgr s)[unat index := (None, End)] ! unat i) = None"
    using frees other_free by simp
  from srt have srt': "sorted (map e_key (filter (\<lambda>y. e_node y \<noteq> e_node x) ?tl))"
    by (simp add: sorted_map sorted_wrt_filter)
  from dst have dst': "distinct (map e_node (filter (\<lambda>y. e_node y \<noteq> e_node x) ?tl))"
    by (simp add: distinct_map_filter)
  from inside srt' dst' below dfree notfree e' f' show ?thesis
    by (simp add: s' slot_inv_def wf_index_def list_all_iff)
qed

lemma slot_inv_CloseConnection_linux:
  assumes "slot_inv s" and "CloseConnection_linux s cid = Inr (r, s')"
  shows "slot_inv s'"
  using assms
  by (auto simp: CloseConnection_linux_def Let_def split: if_splits option.splits sum.splits
      intro: slot_inv_DeleteConnection_linux [where s = "emit e s" for e, simplified])

lemma slot_inv_OnErrorEvent_linux:
  assumes "slot_inv s" and "OnErrorEvent_linux s cid = Inr s'"
  shows "slot_inv s'"
  using assms
  by (auto simp: OnErrorEvent_linux_def Let_def split: if_splits option.splits
      intro: slot_inv_DeleteConnection_linux [where s = "emit e s" for e, simplified])

text \<open>Refreshing the deadline of a live slot: erase its entry, insert a new one.\<close>

lemma slot_inv_refresh:
  assumes inv: "slot_inv s" and inside: "unat index < length (mgr s)"
    and live: "fst (mgr s ! unat index) \<noteq> None"
    and erase: "mm_erase (snd (mgr s ! unat index)) (timeout_record_list s) = Inr es"
  shows "slot_inv
     (s\<lparr>timeout_record_list := mm_insert (TimeoutEntry d index (next_node s)) es,
        next_node := Suc (next_node s),
        mgr := (mgr s)[unat index := (fst (mgr s ! unat index), At (next_node s))]\<rparr>)"
proof -
  let ?tl = "timeout_record_list s"
  let ?m = "(mgr s)[unat index := (fst (mgr s ! unat index), At (next_node s))]"
  from erase obtain x where x: "mm_deref (snd (mgr s ! unat index)) ?tl = Some x"
    and es: "es = filter (\<lambda>y. e_node y \<noteq> e_node x) ?tl"
    by (auto simp: mm_erase_def split: option.splits)
  from x have it: "snd (mgr s ! unat index) = At (e_node x)"
    by (simp add: mm_deref_Some)
  from inv have srt: "sorted (map e_key ?tl)" and dst: "distinct (map e_node ?tl)"
    and below: "\<forall>e\<in>set ?tl. e_node e < next_node s"
    and dfree: "distinct (free_index_list s)"
    and entries: "\<forall>e\<in>set ?tl. unat (e_val e) < length (mgr s)
           \<and> fst (mgr s ! unat (e_val e)) \<noteq> None
           \<and> snd (mgr s ! unat (e_val e)) = At (e_node e)"
    and frees: "\<forall>i\<in>set (free_index_list s). unat i < length (mgr s) \<and> fst (mgr s ! unat i) = None"
    by (auto simp: slot_inv_def wf_index_def list_all_iff)
  have other: "unat index \<noteq> unat (e_val e)" if "e \<in> set es" for e
    using that entries it by (auto simp: es)
  have other_free: "unat index \<noteq> unat i" if "i \<in> set (free_index_list s)" for i
    using that frees live by auto
  have e': "\<forall>e\<in>set es. unat (e_val e) < length (mgr s)
       \<and> fst (?m ! unat (e_val e)) \<noteq> None \<and> snd (?m ! unat (e_val e)) = At (e_node e)"
    using entries other by (simp add: es)
  have f': "\<forall>i\<in>set (free_index_list s). unat i < length (mgr s) \<and> fst (?m ! unat i) = None"
    using frees other_free by simp
  from srt have srt': "sorted (map e_key es)"
    by (simp add: es sorted_map sorted_wrt_filter)
  from dst have dst': "distinct (map e_node es)"
    by (simp add: es distinct_map_filter)
  from below have below': "\<forall>e\<in>set es. e_node e < next_node s"
    by (simp add: es)
  then have fresh: "next_node s \<notin> e_node ` set es"
    by auto
  from inside live srt' dst' below' fresh dfree e' f' show ?thesis
    by (simp add: slot_inv_def wf_index_def list_all_iff sorted_mm_insert distinct_mm_insert
        less_Suc_eq)
qed

lemma slot_inv_io_event_linux:
  assumes inv: "slot_inv s" and inside: "unat index < length (mgr s)"
    and live: "fst (mgr s ! unat index) \<noteq> None"
    and run: "io_event_linux ev msg s index c ok now = Inr s'"
  shows "slot_inv s'"
proof (cases ok)
  case False
  with run have "DeleteConnection_linux
      (emit (Conn_Shutdown (conn_cid c) True) (emit (Log_error msg) (emit ev s))) index = Inr s'"
    by (simp add: io_event_linux_def Let_def)
  with inv live show ?thesis
    by (auto intro: slot_inv_DeleteConnection_linux
        [where s = "emit a (emit b (emit d s))" for a b d, simplified])
next
  case True
  with run obtain es where erase: "mm_erase (snd (mgr s ! unat index)) (timeout_record_list s) = Inr es"
    and s': "s' = (emit ev s)
        \<lparr>timeout_record_list :=
           mm_insert (TimeoutEntry (now + connection_timeout (options s)) index (next_node s)) es,
         next_node := Suc (next_node s),
         mgr := (mgr s)[unat index := (fst (mgr s ! unat index), At (next_node s))]\<rparr>"
    by (auto simp: io_event_linux_def Let_def timeout_insert_def split: sum.splits if_splits)
  have "s' = (s\<lparr>timeout_record_list :=
           mm_insert (TimeoutEntry (now + connection_timeout (options s)) index (next_node s)) es,
         next_node := Suc (next_node s),
         mgr := (mgr s)[unat index := (fst (mgr s ! unat index), At (next_node s))]\<rparr>)
        \<lparr>trace := trace s @ [ev]\<rparr>"
    by (simp add: s' emit_def)
  with slot_inv_refresh [OF inv inside live erase] show ?thesis
    by (simp only: slot_inv_trace)
qed

lemma slot_inv_OnRecvEvent_linux:
  assumes inv: "slot_inv s" and run: "OnRecvEvent_linux s cid ok now = Inr s'"
  shows "slot_inv s'"
proof (cases "CheckConnectionId s cid = InvalidIndex")
  case True
  with inv run show ?thesis
    by (auto simp: OnRecvEvent_linux_def)
next
  case False
  with run obtain c where inside: "unat (CheckConnectionId s cid) < length (mgr s)"
    and c: "fst (mgr s ! unat (CheckConnectionId s cid)) = Some c"
    and io: "io_event_linux (Conn_DoRecvEvent (conn_cid c))
        ''tcpserver: Failed to post async recv'' s (CheckConnectionId s cid) c ok now = Inr s'"
    by (auto simp: OnRecvEvent_linux_def Let_def split: if_splits option.splits)
  from c have "fst (mgr s ! unat (CheckConnectionId s cid)) \<noteq> None"
    by simp
  from inv inside this io show ?thesis
    by (rule slot_inv_io_event_linux)
qed

lemma slot_inv_OnSendEvent_linux:
  assumes inv: "slot_inv s" and run: "OnSendEvent_linux s cid ok now = Inr s'"
  shows "slot_inv s'"
proof (cases "CheckConnectionId s cid = InvalidIndex")
  case True
  with inv run show ?thesis
    by (auto simp: OnSendEvent_linux_def)
next
  case False
  with run obtain c where inside: "unat (CheckConnectionId s cid) < length (mgr s)"
    and c: "fst (mgr s ! unat (CheckConnectionId s cid)) = Some c"
    and io: "io_event_linux (Conn_DoSendEvent (conn_cid c))
        ''tcpserver: Failed to post async send'' s (CheckConnectionId s cid) c ok now = Inr s'"
    by (auto simp: OnSendEvent_linux_def Let_def split: if_splits option.splits)
  from c have "fst (mgr s ! unat (CheckConnectionId s cid)) \<noteq> None"
    by simp
  from inv inside this io show ?thesis
    by (rule slot_inv_io_event_linux)
qed

text \<open>The sweep.\<close>

lemma slot_inv_swept:
  assumes inv: "slot_inv s"
  shows "slot_inv (swept s current)"
proof -
  let ?tl = "timeout_record_list s"
  let ?hit = "takeWhile (\<lambda>e. e_key e \<le> current) ?tl"
  from inv have wf: "wf_index s"
    and below: "\<forall>e\<in>set ?tl. e_node e < next_node s"
    and dfree: "distinct (free_index_list s)"
    and entries: "\<forall>e\<in>set ?tl. unat (e_val e) < length (mgr s)
           \<and> fst (mgr s ! unat (e_val e)) \<noteq> None"
    and frees: "\<forall>i\<in>set (free_index_list s). unat i < length (mgr s) \<and> fst (mgr s ! unat i) = None"
    by (auto simp: slot_inv_def wf_index_def list_all_iff)
  have sub: "set ?hit \<subseteq> set ?tl"
    by (auto dest: set_takeWhileD)
  have wf': "wf_index (swept s current)"
    using sweep_swept [OF wf] by simp
  have below': "\<forall>e\<in>set (dropWhile (\<lambda>e. e_key e \<le> current) ?tl). e_node e < next_node s"
    using below by (auto dest: set_dropWhileD)
  from wf have "distinct (map e_node ?tl)"
    by (simp add: wf_index_def)
  then have "distinct ?tl"
    by (simp add: distinct_map)
  then have dhit: "distinct ?hit"
    by (rule distinct_takeWhile)
  have "inj_on e_val (set ?hit)"
  proof (rule inj_onI)
    fix a b assume "a \<in> set ?hit" "b \<in> set ?hit" "e_val a = e_val b"
    with sub wf_index_same_slot [OF wf, of a b] show "a = b" by auto
  qed
  with dhit have dvals: "distinct (map e_val ?hit)"
    by (simp add: distinct_map)
  have disj: "set (free_index_list s) \<inter> e_val ` set ?hit = {}"
  proof (rule ccontr)
    assume "set (free_index_list s) \<inter> e_val ` set ?hit \<noteq> {}"
    then obtain e where e: "e \<in> set ?hit" "e_val e \<in> set (free_index_list s)"
      by auto
    from e(1) sub have "e \<in> set ?tl" by auto
    with entries have "fst (mgr s ! unat (e_val e)) \<noteq> None" by simp
    moreover from e(2) frees have "fst (mgr s ! unat (e_val e)) = None" by simp
    ultimately show False by simp
  qed
  have hit_in: "\<forall>e\<in>set ?hit. unat (e_val e) < length (mgr s)"
    using entries sub by auto
  have f': "\<forall>i\<in>set (free_index_list s) \<union> e_val ` set ?hit.
       unat i < length (mgr s) \<and> fst (evict_slots ?hit (mgr s) ! unat i) = None"
    using frees hit_in by (auto simp: nth_evict_slots)
  from wf' below' dfree dvals disj f' show ?thesis
    by (simp add: slot_inv_def swept_def Let_def list_all_iff)
qed

lemma slot_inv_OnCheckingEvent_linux:
  assumes inv: "slot_inv s" and run: "OnCheckingEvent_linux s current = Inr s'"
  shows "slot_inv s'"
proof (cases "current - last_timeout_time s < 1")
  case True
  with inv run show ?thesis
    by (simp add: OnCheckingEvent_linux_def split: if_splits)
next
  case False
  let ?s = "s\<lparr>last_timeout_time := current\<rparr>"
  have inv0: "slot_inv ?s"
    using inv by (simp add: slot_inv_def wf_index_def)
  then have "wf_index ?s"
    by (simp add: slot_inv_def)
  from sweep_swept [OF this, of current] False run have "s' = swept ?s current"
    by (simp add: OnCheckingEvent_linux_def Let_def split: if_splits)
  with slot_inv_swept [OF inv0] show ?thesis
    by simp
qed

section \<open>Reachable states\<close>

text \<open>
  The states a Linux server goes through after a successful \<open>Init\<close> on a new object,
  each step one call that returns; a \<open>Shutdown\<close> is followed by the next \<open>Init\<close>.
\<close>

inductive reachable :: "TcpServer \<Rightarrow> bool" where
  init: "reachable (snd (Init_linux (TcpServer_ctor o0 m0) opts
          RAPTOR_ERROR_NONE RAPTOR_ERROR_NONE RAPTOR_ERROR_NONE n))"
| start: "reachable s \<Longrightarrow> Start_linux s a b c = Inr (e, s') \<Longrightarrow> reachable s'"
| accept: "reachable s \<Longrightarrow> OnNewConnection_linux s sock listen_port now = Inr s'
    \<Longrightarrow> reachable s'"
| send: "reachable s \<Longrightarrow> Send_linux s cid r = Inr (b, s') \<Longrightarrow> reachable s'"
| close: "reachable s \<Longrightarrow> CloseConnection_linux s cid = Inr (b, s') \<Longrightarrow> reachable s'"
| error: "reachable s \<Longrightarrow> OnErrorEvent_linux s cid = Inr s' \<Longrightarrow> reachable s'"
| recv: "reachable s \<Longrightarrow> OnRecvEvent_linux s cid ok now = Inr s' \<Longrightarrow> reachable s'"
| sent: "reachable s \<Longrightarrow> OnSendEvent_linux s cid ok now = Inr s' \<Longrightarrow> reachable s'"
| check: "reachable s \<Longrightarrow> OnCheckingEvent_linux s current = Inr s' \<Longrightarrow> reachable s'"
| notify: "reachable s \<Longrightarrow> reachable (push_message ty cid s)"
| again: "reachable s \<Longrightarrow> \<not> shutdown s \<Longrightarrow> Shutdown_linux s = Inr s1
    \<Longrightarrow> reachable (snd (Init_linux s1 opts
          RAPTOR_ERROR_NONE RAPTOR_ERROR_NONE RAPTOR_ERROR_NONE n))"

lemma slot_inv_only_table:
  assumes "mgr s' = mgr s" and "timeout_record_list s' = timeout_record_list s"
    and "free_index_list s' = free_index_list s" and "next_node s' = next_node s"
  shows "slot_inv s' = slot_inv s"
  using assms by (simp add: slot_inv_def wf_index_def)

lemma slot_inv_Start_linux:
  "Start_linux s a b c = Inr (e, s') \<Longrightarrow> slot_inv s' = slot_inv s"
  by (rule slot_inv_only_table) (auto simp: Start_linux_def Let_def split: if_splits)

lemma slot_inv_Send_linux:
  "Send_linux s cid r = Inr (b, s') \<Longrightarrow> slot_inv s' = slot_inv s"
  by (rule slot_inv_only_table)
    (auto simp: Send_linux_def Let_def split: if_splits option.splits)

lemma slot_inv_push_message: "slot_inv (push_message ty cid s) = slot_inv s"
  by (rule slot_inv_only_table) (simp_all add: push_message_def)

theorem reachable_slot_inv: "reachable s \<Longrightarrow> slot_inv s"
proof (induction rule: reachable.induct)
  case (init o0 m0 opts n)
  show ?case
    by (rule slot_inv_Init_linux) (simp_all add: TcpServer_ctor_def)
next
  case (start s a b c e s')
  then show ?case by (simp add: slot_inv_Start_linux)
next
  case (accept s sock listen_port now s')
  then show ?case by (auto intro: slot_inv_OnNewConnection_linux)
next
  case (send s cid r b s')
  then show ?case by (simp add: slot_inv_Send_linux)
next
  case (close s cid b s')
  then show ?case by (auto intro: slot_inv_CloseConnection_linux)
next
  case (error s cid s')
  then show ?case by (auto intro: slot_inv_OnErrorEvent_linux)
next
  case (recv s cid ok now s')
  then show ?case by (auto intro: slot_inv_OnRecvEvent_linux)
next
  case (sent s cid ok now s')
  then show ?case by (auto intro: slot_inv_OnSendEvent_linux)
next
  case (check s current s')
  then show ?case by (auto intro: slot_inv_OnCheckingEvent_linux)
next
  case (notify s ty cid)
  then show ?case by (simp add: slot_inv_push_message)
next
  case (again s s1 opts n)
  from again.hyps(3) have "shutdown s1"
    by (rule Shutdown_linux_post)
  with Shutdown_linux_cleared [OF again.hyps(3) again.hyps(2)] show ?case
    by (auto intro: slot_inv_Init_linux)
qed

corollary reachable_wf_index: "reachable s \<Longrightarrow> wf_index s"
  using reachable_slot_inv by (simp add: slot_inv_def)

section \<open>The invariant on Windows\<close>

lemma slot_inv_Init_win:
  assumes "shutdown s" and "mgr s = []" and "timeout_record_list s = []"
    and "free_index_list s = []"
  shows "slot_inv (snd (Init_win s opts RAPTOR_ERROR_NONE RAPTOR_ERROR_NONE n))"
  using assms distinct_indices [of 100 0]
  by (simp add: Init_win_def Let_def emit_def slot_inv_def wf_index_def resize_def
      RESERVED_CONNECTION_COUNT_def list_all_iff unat_of_nat_small)

lemma OnNewConnection_win_full:
  assumes "free_index_list s = []" and "unat (max_connections (options s)) \<le> length (mgr s)"
  shows "OnNewConnection_win s sock listen_port now r =
     Inr (s\<lparr>trace := trace s @
            [Log_error ''The maximum number of connections has been reached: %u'',
             Socket_shutdown sock]\<rparr>)"
  using assms by (simp add: OnNewConnection_win_def emit_def)

lemma OnNewConnection_win_grow:
  assumes "free_index_list s = []"
    and "length (mgr s) < unat (max_connections (options s))"
  shows "OnNewConnection_win s sock listen_port now r =
     (if free_index_list (grow s) = [] then Inl Empty_front
      else OnNewConnection_win (grow s) sock listen_port now r)"
  using assms by (simp add: OnNewConnection_win_def)

lemma slot_inv_requeue:
  assumes inv: "slot_inv s" and free: "free_index_list s = index # rest"
  shows "slot_inv (s\<lparr>free_index_list := rest @ [index]\<rparr>)"
  using assms by (auto simp: slot_inv_def wf_index_def list_all_iff)

lemma slot_inv_OnNewConnection_win_free:
  assumes inv: "slot_inv s" and free: "free_index_list s = index # rest"
    and run: "OnNewConnection_win s sock listen_port now r = Inr s'"
  shows "slot_inv s'"
proof -
  from inv free have inside: "unat index < length (mgr s)"
    by (simp add: slot_inv_def)
  from run have rs: "rs_thread s"
    and range: "in_time_t (now + connection_timeout (options s))"
    using free by (auto simp: OnNewConnection_win_def Let_def split: if_splits)
  let ?cid = "BuildConnectionId (magic_number s) (word_of_int listen_port) index"
  note eq = OnNewConnection_win_free [OF free inside rs range, of sock listen_port r]
  show ?thesis
  proof (cases r)
    case True
    with run eq
    have "s' = (s\<lparr>free_index_list := rest @ [index]\<rparr>)\<lparr>trace := trace s @
        [Conn_Init ?cid sock, Conn_SetProtocol ?cid, Iocp_Add sock ?cid, Conn_AsyncRecv ?cid,
         Conn_Shutdown ?cid True]\<rparr>"
      by (auto simp: Let_def)
    with slot_inv_requeue [OF inv free] show ?thesis
      by (auto simp only: slot_inv_trace)
  next
    case False
    let ?a = "s\<lparr>free_index_list := rest,
        timeout_record_list :=
          mm_insert (TimeoutEntry (now + connection_timeout (options s)) index (next_node s))
            (timeout_record_list s),
        next_node := Suc (next_node s),
        mgr := (mgr s)[unat index := (Some (Connection ?cid sock), At (next_node s))]\<rparr>"
    from False run eq
    have "s' = ?a\<lparr>trace := trace s @
        [Conn_Init ?cid sock, Conn_SetProtocol ?cid, Iocp_Add sock ?cid, Conn_AsyncRecv ?cid]\<rparr>"
      by (auto simp: Let_def)
    with slot_inv_accept [OF inv free] show ?thesis
      by (auto simp only: slot_inv_trace)
  qed
qed

lemma slot_inv_OnNewConnection_win:
  assumes inv: "slot_inv s" and run: "OnNewConnection_win s sock listen_port now r = Inr s'"
  shows "slot_inv s'"
proof (cases "free_index_list s")
  case (Cons index rest)
  from inv Cons run show ?thesis
    by (rule slot_inv_OnNewConnection_win_free)
next
  case Nil
  show ?thesis
  proof (cases "unat (max_connections (options s)) \<le> length (mgr s)")
    case True
    with Nil run inv show ?thesis
      by (auto simp: OnNewConnection_win_full)
  next
    case False
    then have room: "length (mgr s) < unat (max_connections (options s))"
      by simp
    from run OnNewConnection_win_grow [OF Nil room]
    have ne: "free_index_list (grow s) \<noteq> []"
      and run': "OnNewConnection_win (grow s) sock listen_port now r = Inr s'"
      by (auto split: if_splits)
    from ne obtain index rest where "free_index_list (grow s) = index # rest"
      by (cases "free_index_list (grow s)") auto
    with slot_inv_grow [OF inv Nil room] run' show ?thesis
      by (auto intro: slot_inv_OnNewConnection_win_free)
  qed
qed

lemma DeleteConnection_win_live:
  "fst (mgr s ! unat index) \<noteq> None
     \<Longrightarrow> DeleteConnection_win s index = DeleteConnection_linux s index"
  by (cases "fst (mgr s ! unat index)")
    (simp_all add: DeleteConnection_win_def DeleteConnection_linux_def)

lemma slot_inv_DeleteConnection_win:
  assumes inv: "slot_inv s" and run: "DeleteConnection_win s index = Inr s'"
  shows "slot_inv s'"
proof (cases "fst (mgr s ! unat index) = None")
  case True
  with run have "s' = s"
    by (auto simp: DeleteConnection_win_def split: if_splits)
  with inv show ?thesis by simp
next
  case False
  with run have "DeleteConnection_linux s index = Inr s'"
    by (simp add: DeleteConnection_win_live)
  with inv False show ?thesis
    by (rule slot_inv_DeleteConnection_linux)
qed

lemma GetConnection_cases:
  obtains "GetConnection s index = Inl Out_of_bounds"
  | "GetConnection s index = Inr None"
  | c where "GetConnection s index = Inr (Some c)"
proof (cases "length (mgr s) \<le> unat index")
  case True
  then have "GetConnection s index = Inl Out_of_bounds"
    by (simp add: GetConnection_def)
  then show ?thesis by (rule that(1))
next
  case False
  show ?thesis
  proof (cases "fst (mgr s ! unat index)")
    case None
    with False have "GetConnection s index = Inr None"
      by (simp add: GetConnection_def)
    then show ?thesis by (rule that(2))
  next
    case (Some c)
    with False have "GetConnection s index = Inr (Some c)"
      by (simp add: GetConnection_def)
    then show ?thesis by (rule that(3))
  qed
qed

lemma slot_inv_CloseConnection_win:
  assumes inv: "slot_inv s" and run: "CloseConnection_win s cid = Inr (r, s')"
  shows "slot_inv s'"
proof (cases "CheckConnectionId s cid = InvalidIndex")
  case True
  with inv run show ?thesis
    by (simp add: CloseConnection_win_def)
next
  case False
  show ?thesis
  proof (cases s "CheckConnectionId s cid" rule: GetConnection_cases)
    case 1
    with False run show ?thesis
      by (simp add: CloseConnection_win_def)
  next
    case 2
    with False inv run show ?thesis
      by (simp add: CloseConnection_win_def)
  next
    case (3 c)
    with False run
    have del: "DeleteConnection_win (emit (Conn_Shutdown (conn_cid c) False) s)
        (CheckConnectionId s cid) = Inr s'"
      by (simp add: CloseConnection_win_def split: sum.splits)
    from inv have "slot_inv (emit (Conn_Shutdown (conn_cid c) False) s)"
      by simp
    from this del show ?thesis
      by (rule slot_inv_DeleteConnection_win)
  qed
qed

lemma slot_inv_OnErrorEvent_win:
  assumes inv: "slot_inv s" and run: "OnErrorEvent_win s cid = Inr s'"
  shows "slot_inv s'"
proof (cases "CheckConnectionId s cid = InvalidIndex")
  case True
  with inv run show ?thesis
    by (auto simp: OnErrorEvent_win_def)
next
  case False
  show ?thesis
  proof (cases s "CheckConnectionId s cid" rule: GetConnection_cases)
    case 1
    with False run show ?thesis
      by (simp add: OnErrorEvent_win_def)
  next
    case 2
    with False inv run show ?thesis
      by (simp add: OnErrorEvent_win_def)
  next
    case (3 c)
    with False run
    have del: "DeleteConnection_win (emit (Conn_Shutdown (conn_cid c) True) s)
        (CheckConnectionId s cid) = Inr s'"
      by (simp add: OnErrorEvent_win_def)
    from inv have "slot_inv (emit (Conn_Shutdown (conn_cid c) True) s)"
      by simp
    from this del show ?thesis
      by (rule slot_inv_DeleteConnection_win)
  qed
qed

lemma slot_inv_RefreshTime:
  assumes inv: "slot_inv s" and run: "RefreshTime s index now = Inr s'"
  shows "slot_inv s'"
proof (cases "fst (mgr s ! unat index) = None")
  case True
  with run have "s' = s"
    by (auto simp: RefreshTime_def split: if_splits)
  with inv show ?thesis by simp
next
  case False
  with run obtain es where inside: "unat index < length (mgr s)"
    and erase: "mm_erase (snd (mgr s ! unat index)) (timeout_record_list s) = Inr es"
    and s': "s' = s
        \<lparr>timeout_record_list :=
           mm_insert (TimeoutEntry (now + connection_timeout (options s)) index (next_node s)) es,
         next_node := Suc (next_node s),
         mgr := (mgr s)[unat index := (fst (mgr s ! unat index), At (next_node s))]\<rparr>"
    by (auto simp: RefreshTime_def Let_def timeout_insert_def split: if_splits sum.splits)
  from slot_inv_refresh [OF inv inside False erase] s' show ?thesis
    by simp
qed

lemma slot_inv_io_event_win:
  assumes inv: "slot_inv s" and run: "io_event_win ev msg s index c ok now = Inr s'"
  shows "slot_inv s'"
proof (cases ok)
  case True
  with run have "RefreshTime (emit ev s) index now = Inr s'"
    by (simp add: io_event_win_def Let_def)
  with inv show ?thesis
    by (auto intro: slot_inv_RefreshTime [where s = "emit ev s", simplified])
next
  case False
  with run obtain s1 where
    del: "DeleteConnection_win (emit (Conn_Shutdown (conn_cid c) True) (emit ev s)) index = Inr s1"
    and s': "s' = emit (Log_error msg) s1"
    by (auto simp: io_event_win_def Let_def split: sum.splits)
  from inv have "slot_inv (emit (Conn_Shutdown (conn_cid c) True) (emit ev s))"
    by simp
  from this del have "slot_inv s1"
    by (rule slot_inv_DeleteConnection_win)
  with s' show ?thesis by simp
qed

lemma slot_inv_OnRecvEvent_win:
  assumes inv: "slot_inv s" and run: "OnRecvEvent_win s cid ok now = Inr s'"
  shows "slot_inv s'"
proof (cases "CheckConnectionId s cid = InvalidIndex")
  case True
  with inv run show ?thesis
    by (auto simp: OnRecvEvent_win_def)
next
  case False
  show ?thesis
  proof (cases s "CheckConnectionId s cid" rule: GetConnection_cases)
    case 1
    with False run show ?thesis
      by (simp add: OnRecvEvent_win_def)
  next
    case 2
    with False inv run show ?thesis
      by (simp add: OnRecvEvent_win_def)
  next
    case (3 c)
    with False run
    have "io_event_win (Conn_DoRecvEvent (conn_cid c))
        ''tcpserver: Failed to post async recv'' s (CheckConnectionId s cid) c ok now = Inr s'"
      by (simp add: OnRecvEvent_win_def)
    with inv show ?thesis
      by (rule slot_inv_io_event_win)
  qed
qed

lemma slot_inv_OnSendEvent_win:
  assumes inv: "slot_inv s" and run: "OnSendEvent_win s cid ok now = Inr s'"
  shows "slot_inv s'"
proof (cases "CheckConnectionId s cid = InvalidIndex")
  case True
  with inv run show ?thesis
    by (auto simp: OnSendEvent_win_def)
next
  case False
  show ?thesis
  proof (cases s "CheckConnectionId s cid" rule: GetConnection_cases)
    case 1
    with False run show ?thesis
      by (simp add: OnSendEvent_win_def)
  next
    case 2
    with False inv run show ?thesis
      by (simp add: OnSendEvent_win_def)
  next
    case (3 c)
    with False run
    have "io_event_win (Conn_DoSendEvent (conn_cid c))
        ''tcpserver: Failed to post async send'' s (CheckConnectionId s cid) c ok now = Inr s'"
      by (simp add: OnSendEvent_win_def)
    with inv show ?thesis
      by (rule slot_inv_io_event_win)
  qed
qed

lemma slot_inv_OnCheckingEvent_win:
  assumes inv: "slot_inv s" and run: "OnCheckingEvent_win s current = Inr s'"
  shows "slot_inv s'"
proof (cases "current - last_timeout_time s < 3")
  case True
  with inv run show ?thesis
    by (simp add: OnCheckingEvent_win_def split: if_splits)
next
  case False
  let ?s = "s\<lparr>last_timeout_time := current\<rparr>"
  have inv0: "slot_inv ?s"
    using inv by (simp add: slot_inv_def wf_index_def)
  then have "wf_index ?s"
    by (simp add: slot_inv_def)
  from sweep_swept [OF this, of current] False run have "s' = swept ?s current"
    by (simp add: OnCheckingEvent_win_def Let_def split: if_splits)
  with slot_inv_swept [OF inv0] show ?thesis
    by simp
qed

lemma slot_inv_Start_win:
  "Start_win s a b = Inr (e, s') \<Longrightarrow> slot_inv s' = slot_inv s"
  by (rule slot_inv_only_table) (auto simp: Start_win_def Let_def split: if_splits)

lemma slot_inv_Send_win:
  "Send_win s cid r = Inr (b, s') \<Longrightarrow> slot_inv s' = slot_inv s"
  by (rule slot_inv_only_table)
    (auto simp: Send_win_def SendWithHeader_win_def GetConnection_def Let_def
      split: if_splits option.splits)

text \<open>The states a Windows server goes through after a successful \<open>Init\<close> on a new object.\<close>

inductive reachable_win :: "TcpServer \<Rightarrow> bool" where
  init: "reachable_win (snd (Init_win (TcpServer_ctor o0 m0) opts
          RAPTOR_ERROR_NONE RAPTOR_ERROR_NONE n))"
| start: "reachable_win s \<Longrightarrow> Start_win s a b = Inr (e, s') \<Longrightarrow> reachable_win s'"
| accept: "reachable_win s \<Longrightarrow> OnNewConnection_win s sock listen_port now r = Inr s'
    \<Longrightarrow> reachable_win s'"
| send: "reachable_win s \<Longrightarrow> Send_win s cid r = Inr (b, s') \<Longrightarrow> reachable_win s'"
| close: "reachable_win s \<Longrightarrow> CloseConnection_win s cid = Inr (b, s') \<Longrightarrow> reachable_win s'"
| error: "reachable_win s \<Longrightarrow> OnErrorEvent_win s cid = Inr s' \<Longrightarrow> reachable_win s'"
| recv: "reachable_win s \<Longrightarrow> OnRecvEvent_win s cid ok now = Inr s' \<Longrightarrow> reachable_win s'"
| sent: "reachable_win s \<Longrightarrow> OnSendEvent_win s cid ok now = Inr s' \<Longrightarrow> reachable_win s'"
| check: "reachable_win s \<Longrightarrow> OnCheckingEvent_win s current = Inr s' \<Longrightarrow> reachable_win s'"
| notify: "reachable_win s \<Longrightarrow> reachable_win (push_message ty cid s)"

theorem reachable_win_slot_inv: "reachable_win s \<Longrightarrow> slot_inv s"
proof (induction rule: reachable_win.induct)
  case (init o0 m0 opts n)
  show ?case
    by (rule slot_inv_Init_win) (simp_all add: TcpServer_ctor_def)
next
  case (start s a b e s')
  then show ?case by (simp add: slot_inv_Start_win)
next
  case (accept s sock listen_port now r s')
  then show ?case by (auto intro: slot_inv_OnNewConnection_win)
next
  case (send s cid r b s')
  then show ?case by (simp add: slot_inv_Send_win)
next
  case (close s cid b s')
  then show ?case by (auto intro: slot_inv_CloseConnection_win)
next
  case (error s cid s')
  then show ?case by (auto intro: slot_inv_OnErrorEvent_win)
next
  case (recv s cid ok now s')
  then show ?case by (auto intro: slot_inv_OnRecvEvent_win)
next
  case (sent s cid ok now s')
  then show ?case by (auto intro: slot_inv_OnSendEvent_win)
next
  case (check s current s')
  then show ?case by (auto intro: slot_inv_OnCheckingEvent_win)
next
  case (notify s ty cid)
  then show ?case by (simp add: slot_inv_push_message)
qed

corollary reachable_win_wf_index: "reachable_win s \<Longrightarrow> wf_index s"
  using reachable_win_slot_inv by (simp add: slot_inv_def)

end
